theory Spec2Isabelle
  imports Main "HOL-Library.Sublist"
begin

section \<open>JavaScript strings and objects\<close>

text \<open>
  A JavaScript string is modelled as a \<^typ>\<open>string\<close>: the list of its code units, taken in
  the 8-bit range. The three string methods the source uses are written out below with the
  results ECMAScript gives them.
\<close>

text \<open>
  \<^verbatim>\<open>s.split(sep)\<close> for a separator of one code unit: the pieces between the occurrences of the
  separator, all of them, empty ones included. The result is never empty:
  \<^verbatim>\<open>''.split('=')\<close> is \<^verbatim>\<open>['']\<close>.
\<close>

fun js_split :: "'a \<Rightarrow> 'a list \<Rightarrow> 'a list list" where
  "js_split sep [] = [[]]"
| "js_split sep (c # cs) =
     (if c = sep then [] # js_split sep cs
      else (case js_split sep cs of
              [] \<Rightarrow> [[c]]
            | p # ps \<Rightarrow> (c # p) # ps))"

text \<open>\<^verbatim>\<open>s.includes(sub)\<close>: \<^verbatim>\<open>sub\<close> occurs in \<^verbatim>\<open>s\<close> as a contiguous run.\<close>

fun js_includes :: "'a list \<Rightarrow> 'a list \<Rightarrow> bool" where
  "js_includes [] sub = (sub = [])"
| "js_includes (c # cs) sub = (prefix sub (c # cs) \<or> js_includes cs sub)"

text \<open>
  The white space and line terminators of ECMAScript in the 8-bit range: TAB, LF, VT, FF,
  CR, SP and NBSP. \<^verbatim>\<open>s.trim()\<close> removes them from both ends.
\<close>

definition is_white_space :: "char \<Rightarrow> bool" where
  "is_white_space c \<longleftrightarrow>
     c \<in> {CHR 0x09, CHR 0x0A, CHR 0x0B, CHR 0x0C, CHR 0x0D, CHR 0x20, CHR 0xA0}"

definition js_trim :: "string \<Rightarrow> string" where
  "js_trim s = rev (dropWhile is_white_space (rev (dropWhile is_white_space s)))"

text \<open>
  The object \<^verbatim>\<open>file\<close> of \<^verbatim>\<open>parseGerritFile\<close> starts as \<^verbatim>\<open>{}\<close> and only ever holds
  strings: a partial map from property names to strings. \<^verbatim>\<open>file[key] = v\<close> creates or
  overwrites the own property \<^verbatim>\<open>key\<close>, with one exception that the language makes:
  \<^verbatim>\<open>__proto__\<close> is an accessor of \<^verbatim>\<open>Object.prototype\<close>, and its setter ignores a value
  that is a string, so that assignment stores nothing.
\<close>

type_synonym js_object = "string \<rightharpoonup> string"

definition set_property :: "js_object \<Rightarrow> string \<Rightarrow> string \<Rightarrow> js_object" where
  "set_property file key v = (if key = ''__proto__'' then file else file(key \<mapsto> v))"

text \<open>
  \<^verbatim>\<open>!file.host\<close>: a property read is falsy when the property is absent
  (\<^verbatim>\<open>undefined\<close>) and when it is the empty string.
\<close>

definition falsy :: "string option \<Rightarrow> bool" where
  "falsy v = (case v of None \<Rightarrow> True | Some s \<Rightarrow> s = [])"

datatype js_error = TypeError

section \<open>The review config reader\<close>

subsection \<open>\<^verbatim>\<open>parseGerritFile\<close>\<close>

text \<open>
  The body of the loop over the lines (source lines 279 to 285). The destructuring
  \<^verbatim>\<open>const [key, value] = line.split('=')\<close> takes the first and the second piece of the
  split; were there no second piece, \<^verbatim>\<open>value\<close> would be \<^verbatim>\<open>undefined\<close> and
  \<^verbatim>\<open>value.trim()\<close> would throw a TypeError.
\<close>

definition assign_line :: "js_object \<Rightarrow> string \<Rightarrow> js_error + js_object" where
  "assign_line file line =
     (if \<not> js_includes line ''='' then Inr file
      else (case js_split (CHR ''='') line of
              key # value # _ \<Rightarrow> Inr (set_property file key (js_trim value))
            | _ \<Rightarrow> Inl TypeError))"

fun assign_lines :: "js_object \<Rightarrow> string list \<Rightarrow> js_error + js_object" where
  "assign_lines file [] = Inr file"
| "assign_lines file (line # rest) =
     (case assign_line file line of
        Inl e \<Rightarrow> Inl e
      | Inr file' \<Rightarrow> assign_lines file' rest)"

definition missing_fields_warning :: string where
  "missing_fields_warning =
     ''Found a `.gitreview` file but it did not contain a host and project which are required''"

text \<open>
  \<^verbatim>\<open>parseGerritFile\<close> returns the messages it passed to \<^verbatim>\<open>log\<close>, in order, and its
  result: \<^term>\<open>None\<close> for \<^verbatim>\<open>null\<close>. \<^term>\<open>Inl\<close> is a thrown exception.
\<close>

definition parseGerritFile :: "string \<Rightarrow> js_error + (string list \<times> js_object option)" where
  "parseGerritFile fileContent =
     (if \<not> js_includes fileContent ''[gerrit]'' then Inr ([], None)
      else (case assign_lines Map.empty (js_split (CHR 0x0A) fileContent) of
              Inl e \<Rightarrow> Inl e
            | Inr file \<Rightarrow>
                if falsy (file ''host'') \<or> falsy (file ''project'')
                then Inr ([missing_fields_warning], None)
                else Inr ([], Some file)))"

subsection \<open>\<^verbatim>\<open>getGitReviewFile\<close> and its cache\<close>

text \<open>
  What the host gives a call: \<^verbatim>\<open>workspace.workspaceFolders\<close> (\<^term>\<open>None\<close> for
  \<^verbatim>\<open>undefined\<close>), each folder named by its URI, and for every folder what
  \<^verbatim>\<open>workspace.fs.readFile\<close> of its \<^verbatim>\<open>.gitreview\<close> gives, decoded as UTF-8:
  \<^term>\<open>None\<close> where the read is rejected, for whatever reason.
\<close>

type_synonym folder = string

record workspace =
  workspaceFolders :: "folder list option"
  readFile :: "folder \<Rightarrow> string option"

text \<open>
  The module's state: the variable \<^verbatim>\<open>gitReviewFile\<close> (line 298), and what the module has
  done to the outside so far: the folders whose file it asked the filesystem for, and the
  messages it logged, both oldest first.
\<close>

record config_state =
  gitReviewFile :: "js_object option"
  reads :: "folder list"
  logged :: "string list"

definition initial_config_state :: config_state where
  "initial_config_state = \<lparr>gitReviewFile = None, reads = [], logged = []\<rparr>"

text \<open>The \<^verbatim>\<open>for\<close> loop of \<^verbatim>\<open>getGitReviewFile\<close> over the folders left to visit.\<close>

fun scan_folders ::
  "(folder \<Rightarrow> string option) \<Rightarrow> folder list \<Rightarrow> config_state \<Rightarrow>
     js_error + (js_object option \<times> config_state)" where
  "scan_folders rd [] s = Inr (None, s)"
| "scan_folders rd (folder # rest) s =
     (let s1 = s\<lparr>reads := reads s @ [folder]\<rparr> in
      case rd folder of
        None \<Rightarrow> scan_folders rd rest s1
      | Some fileContent \<Rightarrow>
          if fileContent = [] then scan_folders rd rest s1
          else (case parseGerritFile fileContent of
                  Inl e \<Rightarrow> Inl e
                | Inr (msgs, parsed) \<Rightarrow>
                    (let s2 = s1\<lparr>logged := logged s1 @ msgs\<rparr> in
                     case parsed of
                       Some p \<Rightarrow> Inr (Some p, s2)
                     | None \<Rightarrow> scan_folders rd rest s2)))"

text \<open>\<^verbatim>\<open>workspace.workspaceFolders || []\<close>: the roots the loop visits, in this order.\<close>

definition workspace_roots :: "workspace \<Rightarrow> folder list" where
  "workspace_roots ws = (case workspaceFolders ws of None \<Rightarrow> [] | Some fs \<Rightarrow> fs)"

definition getGitReviewFile ::
  "workspace \<Rightarrow> config_state \<Rightarrow> js_error + (js_object option \<times> config_state)" where
  "getGitReviewFile ws s = scan_folders (readFile ws) (workspace_roots ws) s"









section \<open>The thread identity adapter\<close>

subsection \<open>The host's objects\<close>

text \<open>
  Of a comment (\<^verbatim>\<open>GerritCommentBase\<close>) the class reads three properties. \<^verbatim>\<open>unresolved\<close>
  may be absent, which is why the source reads it as \<^verbatim>\<open>unresolved ?? false\<close>.
\<close>

record comment =
  comment_id :: string
  isDraft :: bool
  unresolved :: "bool option"

text \<open>
  \<^verbatim>\<open>CommentThreadCollapsibleState\<close> is the editor's enumeration: \<^verbatim>\<open>Collapsed\<close> is 0 and
  \<^verbatim>\<open>Expanded\<close> is 1.
\<close>

datatype CommentThreadCollapsibleState = Collapsed | Expanded

text \<open>
  The editor's thread handle (\<^verbatim>\<open>CommentThread\<close>), with the fields the class reads and writes.
  \<^verbatim>\<open>contextValue\<close> and \<^verbatim>\<open>label\<close> are \<^term>\<open>None\<close> while \<^verbatim>\<open>undefined\<close>. The handle's
  \<^verbatim>\<open>dispose()\<close> belongs to the editor; the model counts its calls in \<open>disposals\<close>.
\<close>

type_synonym uri = string

record CommentThread =
  uri :: uri
  contextValue :: "string option"
  label :: "string option"
  canReply :: bool
  collapsibleState :: CommentThreadCollapsibleState
  comments :: "comment list"
  disposals :: nat

text \<open>
  Handles are objects that the editor and the class share: the model keeps them in a store,
  by address. An instance of \<^verbatim>\<open>GerritCommentThread\<close> has the three private fields
  \<^verbatim>\<open>_threadID\<close>, \<^verbatim>\<open>_thread\<close> (the address of its handle) and \<^verbatim>\<open>_filePath\<close>; no method assigns
  them after the constructor, so an instance is modelled by its value.
\<close>

type_synonym href = nat

record GerritCommentThread =
  threadID :: string
  thread :: href
  filePath :: "string option"

text \<open>
  The counter \<^verbatim>\<open>_lastThreadId\<close> is a JavaScript number, a double. It starts at 0 and changes
  only by \<^verbatim>\<open>++\<close>, so its values are whole numbers, and they are the numbers from 0 to
  \<open>2\<^sup>5\<^sup>3\<close>: below \<open>2\<^sup>5\<^sup>3\<close> the sum \<open>n + 1\<close> is a double and \<^verbatim>\<open>++\<close> is exact, while
  \<open>2\<^sup>5\<^sup>3 + 1\<close> is not a double and rounds (to even) to \<open>2\<^sup>5\<^sup>3\<close>, which \<^verbatim>\<open>++\<close> therefore
  leaves as it is.
\<close>

typedef thread_counter = "{n :: nat. n \<le> 2 ^ 53}"
  morphisms counter_value Abs_thread_counter
  by (rule exI [of _ 0]) simp

setup_lifting type_definition_thread_counter

lift_definition zero_counter :: thread_counter is 0
  by simp

lift_definition js_increment :: "thread_counter \<Rightarrow> thread_counter" is
  "\<lambda>n. if n < 2 ^ 53 then n + 1 else n"
  by simp

lift_definition max_counter :: thread_counter is "2 ^ 53"
  by simp

text \<open>
  The state: the two static fields of the class (lines 26 and 27), the store of handles,
  and the state of the comment managers, which belongs to code outside this file and is
  kept abstract (\<open>'m\<close>).
\<close>

record 'm state =
  lastThreadId :: thread_counter
  threadMap :: "string \<rightharpoonup> GerritCommentThread"
  store :: "href \<Rightarrow> CommentThread"
  managers :: 'm

type_synonym manager = nat

text \<open>
  The collaborators the class calls, none of them in this file, taken as parameters:
  \<^item> \<^verbatim>\<open>FileProvider.tryGetFileMeta(uri)\<close>: \<^term>\<open>None\<close> when there is no meta, else the
    meta's \<^verbatim>\<open>filePath\<close>;
  \<^item> \<^verbatim>\<open>CommentManager.getFileManagersForUri(uri)\<close>, a list of managers;
  \<^item> \<^verbatim>\<open>manager.getLineThreadCount(line)\<close>;
  \<^item> \<^verbatim>\<open>DocumentCommentManager.getCommentRange(comment)\<close>: \<^term>\<open>None\<close> for \<^verbatim>\<open>null\<close>, else
    \<^verbatim>\<open>range.start.line\<close>, the one part of the range that is read;
  \<^item> \<^verbatim>\<open>manager.registerNewThread(gthread)\<close> and \<^verbatim>\<open>manager.registerComments(thread, ...comments)\<close>,
    which change the managers' state and nothing else.
\<close>

record 'm env =
  tryGetFileMeta :: "uri \<Rightarrow> string option"
  getFileManagersForUri :: "'m \<Rightarrow> uri \<Rightarrow> manager list"
  getLineThreadCount :: "'m \<Rightarrow> manager \<Rightarrow> nat \<Rightarrow> nat"
  getCommentRange :: "comment \<Rightarrow> nat option"
  registerNewThread :: "manager \<Rightarrow> GerritCommentThread \<Rightarrow> 'm \<Rightarrow> 'm"
  registerComments :: "manager \<Rightarrow> GerritCommentThread \<Rightarrow> comment list \<Rightarrow> 'm \<Rightarrow> 'm"

definition modify_thread :: "href \<Rightarrow> (CommentThread \<Rightarrow> CommentThread) \<Rightarrow> 'm state \<Rightarrow> 'm state" where
  "modify_thread h f s = s\<lparr>store := (store s)(h := f (store s h))\<rparr>"

text \<open>\<^verbatim>\<open>thread.dispose()\<close>, the editor's.\<close>

definition thread_dispose :: "href \<Rightarrow> 'm state \<Rightarrow> 'm state" where
  "thread_dispose h s = modify_thread h (\<lambda>t. t\<lparr>disposals := Suc (disposals t)\<rparr>) s"

subsection \<open>Identifiers\<close>

text \<open>
  \<^verbatim>\<open>String(id)\<close> of a counter value: its decimal digits (a whole number up to \<open>2\<^sup>5\<^sup>3\<close> is
  printed in full, without an exponent).
\<close>

definition digit_char :: "nat \<Rightarrow> char" where
  "digit_char d = ''0123456789'' ! d"

fun js_String :: "nat \<Rightarrow> string" where
  "js_String n =
     (if n < 10 then [digit_char n] else js_String (n div 10) @ [digit_char (n mod 10)])"

declare js_String.simps [simp del]

text \<open>\<^verbatim>\<open>xs.join(sep)\<close> on strings.\<close>

fun js_join :: "string \<Rightarrow> string list \<Rightarrow> string" where
  "js_join sep [] = []"
| "js_join sep [x] = x"
| "js_join sep (x # y # ys) = x @ sep @ js_join sep (y # ys)"

definition initial_state :: "'m \<Rightarrow> (href \<Rightarrow> CommentThread) \<Rightarrow> 'm state" where
  "initial_state m hs =
     \<lparr>lastThreadId = zero_counter, threadMap = Map.empty, store = hs, managers = m\<rparr>"

text \<open>\<^verbatim>\<open>return this._lastThreadId++\<close>: the value before, as a number.\<close>

definition generateID :: "'m state \<Rightarrow> nat \<times> 'm state" where
  "generateID s =
     (counter_value (lastThreadId s), s\<lparr>lastThreadId := js_increment (lastThreadId s)\<rparr>)"

text \<open>
  \<^verbatim>\<open>_getThreadID\<close>: \<^verbatim>\<open>null\<close> when \<^verbatim>\<open>contextValue\<close> is falsy (\<^verbatim>\<open>undefined\<close> or empty), else
  the first piece of the split at \<^verbatim>\<open>|\<close>.
\<close>

definition getThreadID :: "CommentThread \<Rightarrow> string option" where
  "getThreadID t =
     (case contextValue t of
        None \<Rightarrow> None
      | Some cv \<Rightarrow>
          if cv = [] then None
          else (case js_split (CHR ''|'') cv of [] \<Rightarrow> None | tid # _ \<Rightarrow> Some tid))"

text \<open>
  \<^verbatim>\<open>_setThreadID(thread, instance)\<close>. The table keeps a reference to \<^verbatim>\<open>instance\<close>, the object
  under construction, whose \<^verbatim>\<open>_threadID\<close> the constructor sets to the string returned here
  (line 59): the record stored is the instance with that field.
\<close>

definition setThreadID :: "href \<Rightarrow> GerritCommentThread \<Rightarrow> 'm state \<Rightarrow> string \<times> 'm state" where
  "setThreadID h instance s =
     (let (n, s1) = generateID s;
          s2 = modify_thread h (\<lambda>t. t\<lparr>contextValue := Some (js_String n @ ''|'')\<rparr>) s1;
          s3 = s2\<lparr>threadMap := (threadMap s2)(js_String n \<mapsto> instance\<lparr>threadID := js_String n\<rparr>)\<rparr>
      in (js_String n, s3))"

text \<open>The constructor (lines 58 to 65): the new instance and the state it leaves.\<close>

definition new_GerritCommentThread ::
  "'m env \<Rightarrow> href \<Rightarrow> 'm state \<Rightarrow> GerritCommentThread \<times> 'm state" where
  "new_GerritCommentThread E h s =
     (let this = \<lparr>threadID = [], thread = h, filePath = tryGetFileMeta E (uri (store s h))\<rparr>;
          (tid, s1) = setThreadID h this s
      in (this\<lparr>threadID := tid\<rparr>, s1))"

text \<open>\<^verbatim>\<open>GerritCommentThread.from(thread)\<close>; \<^term>\<open>None\<close> is \<^verbatim>\<open>null\<close>.\<close>

definition from_CommentThread ::
  "'m env \<Rightarrow> href \<Rightarrow> 'm state \<Rightarrow> GerritCommentThread option \<times> 'm state" where
  "from_CommentThread E h s =
     (case (case getThreadID (store s h) of
              None \<Rightarrow> None
            | Some tid \<Rightarrow> if tid = [] then None else threadMap s tid) of
        Some known \<Rightarrow> (Some known, s)
      | None \<Rightarrow>
          (let (gthread, s1) = new_GerritCommentThread E h s in
           case getFileManagersForUri E (managers s1) (uri (store s1 h)) of
             [] \<Rightarrow> (None, s1)
           | m # _ \<Rightarrow> (Some gthread, s1\<lparr>managers := registerNewThread E m gthread (managers s1)\<rparr>)))"

subsection \<open>Getters\<close>

text \<open>
  \<^verbatim>\<open>comments[comments.length - 1]\<close>: on an empty array the index is \<open>-1\<close> and the read
  gives \<^verbatim>\<open>undefined\<close>.
\<close>

definition lastComment :: "'m state \<Rightarrow> GerritCommentThread \<Rightarrow> comment option" where
  "lastComment s this =
     (let cs = comments (store s (thread this)) in if cs = [] then None else Some (last cs))"

definition resolved :: "'m state \<Rightarrow> GerritCommentThread \<Rightarrow> bool" where
  "resolved s this =
     (\<not> (case lastComment s this of
           None \<Rightarrow> False
         | Some c \<Rightarrow> (case unresolved c of None \<Rightarrow> False | Some u \<Rightarrow> u)))"

definition manager_of :: "'m env \<Rightarrow> 'm state \<Rightarrow> GerritCommentThread \<Rightarrow> manager option" where
  "manager_of E s this =
     (case tryGetFileMeta E (uri (store s (thread this))) of
        None \<Rightarrow> None
      | Some meta \<Rightarrow>
          (case getFileManagersForUri E (managers s) (uri (store s (thread this))) of
             [] \<Rightarrow> None
           | m # _ \<Rightarrow> Some m))"

subsection \<open>\<^verbatim>\<open>update\<close>\<close>

definition setContextValue :: "GerritCommentThread \<Rightarrow> string \<Rightarrow> 'm state \<Rightarrow> 'm state" where
  "setContextValue this cv s =
     modify_thread (thread this) (\<lambda>t. t\<lparr>contextValue := Some (threadID this @ ''|'' @ cv)\<rparr>) s"

definition updateContextValues :: "GerritCommentThread \<Rightarrow> 'm state \<Rightarrow> 'm state" where
  "updateContextValues this s =
     setContextValue this
       (js_join '',''
          [if resolved s this then ''yesResolved'' else ''noResolved'',
           if (case lastComment s this of None \<Rightarrow> True | Some c \<Rightarrow> isDraft c)
           then ''yesLastCommentDraft'' else ''nodLastCommentDaft''])
       s"

text \<open>The function evaluated in place on lines 144 to 165.\<close>

definition overrideExpand :: "'m env \<Rightarrow> GerritCommentThread \<Rightarrow> 'm state \<Rightarrow> bool" where
  "overrideExpand E this s =
     (if falsy (filePath this) \<or> lastComment s this = None then False
      else (case getCommentRange E (the (lastComment s this)) of
              None \<Rightarrow> False
            | Some line \<Rightarrow>
                (let ms = getFileManagersForUri E (managers s) (uri (store s (thread this)));
                     threadCount = foldl (\<lambda>n m. n + getLineThreadCount E (managers s) m line) 0 ms
                 in if threadCount > 1 then True else False)))"

definition update :: "'m env \<Rightarrow> GerritCommentThread \<Rightarrow> bool \<Rightarrow> 'm state \<Rightarrow> 'm state" where
  "update E this isInitial s =
     (let s1 = updateContextValues this s;
          s2 = modify_thread (thread this) (\<lambda>t. t\<lparr>label := Some ''Comment''\<rparr>) s1;
          s3 = (if \<not> resolved s2 this
                then modify_thread (thread this) (\<lambda>t. t\<lparr>label := Some ''Comment (unresolved)''\<rparr>) s2
                else s2);
          s4 = modify_thread (thread this)
                 (\<lambda>t. t\<lparr>canReply := (case lastComment s3 this of None \<Rightarrow> True | Some c \<Rightarrow> \<not> isDraft c)\<rparr>) s3
      in if isInitial
         then modify_thread (thread this)
                (\<lambda>t. t\<lparr>collapsibleState :=
                          (if \<not> overrideExpand E this s4 \<and> resolved s4 this
                           then Collapsed else Expanded)\<rparr>) s4
         else s4)"

subsection \<open>Changing the comment list, and disposal\<close>

definition setComments ::
  "'m env \<Rightarrow> GerritCommentThread \<Rightarrow> comment list \<Rightarrow> bool \<Rightarrow> 'm state \<Rightarrow> 'm state" where
  "setComments E this cs isInitial s =
     (let s1 = (case manager_of E s this of
                  None \<Rightarrow> s
                | Some m \<Rightarrow> s\<lparr>managers := registerComments E m this cs (managers s)\<rparr>);
          s2 = modify_thread (thread this) (\<lambda>t. t\<lparr>comments := cs\<rparr>) s1;
          s3 = update E this isInitial s2
      in if comments (store s3 (thread this)) = [] then thread_dispose (thread this) s3 else s3)"

text \<open>
  \<^verbatim>\<open>pushComment\<close>. \<^verbatim>\<open>if (collapseState)\<close> tests the enumeration's number: an absent argument
  and \<^verbatim>\<open>Collapsed\<close> (0) are both falsy.
\<close>

definition pushComment ::
  "'m env \<Rightarrow> GerritCommentThread \<Rightarrow> comment \<Rightarrow> CommentThreadCollapsibleState option \<Rightarrow>
     'm state \<Rightarrow> 'm state" where
  "pushComment E this c collapseState s =
     (let s1 = (case manager_of E s this of
                  None \<Rightarrow> s
                | Some m \<Rightarrow> s\<lparr>managers := registerComments E m this [c] (managers s)\<rparr>);
          isInitial = (comments (store s1 (thread this)) = []);
          s2 = modify_thread (thread this) (\<lambda>t. t\<lparr>comments := comments t @ [c]\<rparr>) s1;
          s3 = update E this isInitial s2
      in case collapseState of
           Some Expanded \<Rightarrow> modify_thread (thread this) (\<lambda>t. t\<lparr>collapsibleState := Expanded\<rparr>) s3
         | _ \<Rightarrow> s3)"

text \<open>
  \<^verbatim>\<open>updateComment\<close>: the updater changes, in place, every comment of the list that has the
  given comment's id; it is modelled by the comment it leaves.
\<close>

definition updateComment ::
  "'m env \<Rightarrow> GerritCommentThread \<Rightarrow> comment \<Rightarrow> (comment \<Rightarrow> comment) \<Rightarrow> 'm state \<Rightarrow> 'm state" where
  "updateComment E this c updater s =
     setComments E this
       (map (\<lambda>c'. if comment_id c' = comment_id c then updater c' else c')
          (comments (store s (thread this))))
       False s"

definition removeComment :: "'m env \<Rightarrow> GerritCommentThread \<Rightarrow> comment \<Rightarrow> 'm state \<Rightarrow> 'm state" where
  "removeComment E this c s =
     setComments E this
       (filter (\<lambda>c'. if comment_id c' = comment_id c then False else True)
          (comments (store s (thread this))))
       False s"

definition refreshComments :: "'m env \<Rightarrow> GerritCommentThread \<Rightarrow> 'm state \<Rightarrow> 'm state" where
  "refreshComments E this s = setComments E this (comments (store s (thread this))) False s"

text \<open>
  The methods that change the comment list of a thread, as one type of calls, so that a
  statement can range over all of them.
\<close>

datatype comment_change =
  SetComments "comment list" bool
  | PushComment comment "CommentThreadCollapsibleState option"
  | UpdateComment comment "comment \<Rightarrow> comment"
  | RemoveComment comment
  | RefreshComments

fun apply_change :: "'m env \<Rightarrow> GerritCommentThread \<Rightarrow> comment_change \<Rightarrow> 'm state \<Rightarrow> 'm state" where
  "apply_change E this (SetComments cs isInitial) s = setComments E this cs isInitial s"
| "apply_change E this (PushComment c collapseState) s = pushComment E this c collapseState s"
| "apply_change E this (UpdateComment c updater) s = updateComment E this c updater s"
| "apply_change E this (RemoveComment c) s = removeComment E this c s"
| "apply_change E this RefreshComments s = refreshComments E this s"

definition dispose :: "GerritCommentThread \<Rightarrow> 'm state \<Rightarrow> 'm state" where
  "dispose this s =
     thread_dispose (thread this) (s\<lparr>threadMap := (threadMap s)(threadID this := None)\<rparr>)"

section \<open>Example inputs\<close>

text \<open>Concrete inputs, on which the theorems below are instantiated.\<close>

definition example_workspace :: workspace where
  "example_workspace =
     \<lparr>workspaceFolders = Some [''/a'', ''/b'', ''/c''],
      readFile = (\<lambda>f. if f = ''/b'' then Some ''[gerrit]\<newline>host=h\<newline>project=p''
                      else if f = ''/c'' then Some ''[gerrit]\<newline>host=other\<newline>project=q''
                      else None)\<rparr>"


definition example_workspace_without_config :: workspace where
  "example_workspace_without_config =
     \<lparr>workspaceFolders = Some [''/a'', ''/b''],
      readFile = (\<lambda>f. if f = ''/b'' then Some ''[gerrit]\<newline>host=h'' else None)\<rparr>"

definition example_thread :: CommentThread where
  "example_thread =
     \<lparr>uri = ''file:///src/a.ts'', contextValue = None, label = None, canReply = True,
      collapsibleState = Expanded, comments = [], disposals = 0\<rparr>"

definition example_state :: "unit state" where
  "example_state = initial_state () (\<lambda>h. example_thread)"

text \<open>
  Three surroundings: one manager for every URI, with two threads on line 3; the same
  without a file meta for the URI; and no manager at all.
\<close>

definition example_env :: "unit env" where
  "example_env =
     \<lparr>tryGetFileMeta = (\<lambda>u. Some ''src/a.ts''),
      getFileManagersForUri = (\<lambda>m u. [0]),
      getLineThreadCount = (\<lambda>m mg line. if line = 3 then 2 else 0),
      getCommentRange = (\<lambda>c. Some 3),
      registerNewThread = (\<lambda>mg g m. m),
      registerComments = (\<lambda>mg g cs m. m)\<rparr>"

definition example_env_without_meta :: "unit env" where
  "example_env_without_meta = example_env\<lparr>tryGetFileMeta := (\<lambda>u. None)\<rparr>"


text \<open>The record \<^verbatim>\<open>from\<close> creates first, with and without a file path.\<close>

definition example_record :: GerritCommentThread where
  "example_record = \<lparr>threadID = ''0'', thread = 0, filePath = Some ''src/a.ts''\<rparr>"

definition example_record_without_path :: GerritCommentThread where
  "example_record_without_path = \<lparr>threadID = ''0'', thread = 0, filePath = None\<rparr>"

definition resolved_comment :: comment where
  "resolved_comment = \<lparr>comment_id = ''c1'', isDraft = False, unresolved = Some False\<rparr>"

definition unresolved_draft :: comment where
  "unresolved_draft = \<lparr>comment_id = ''c2'', isDraft = True, unresolved = Some True\<rparr>"

text \<open>The example state once the counter has reached its last value.\<close>

definition example_state_exhausted :: "unit state" where
  "example_state_exhausted = example_state\<lparr>lastThreadId := max_counter\<rparr>"

definition example_state_with :: "comment list \<Rightarrow> unit state" where
  "example_state_with cs = modify_thread 0 (\<lambda>t. t\<lparr>comments := cs\<rparr>) example_state"

section \<open>Properties of the string functions\<close>

lemma js_split_not_Nil: "js_split sep s \<noteq> []"
  by (induction s) (auto split: list.splits)

lemma js_includes_sublist: "js_includes s sub \<longleftrightarrow> sublist sub s"
  by (induction s) (auto simp: sublist_Cons_right)

lemma js_includes_single: "js_includes s [c] \<longleftrightarrow> c \<in> set s"
  by (induction s) auto

lemma js_split_no_sep: "sep \<notin> set k \<Longrightarrow> js_split sep k = [k]"
  by (induction k) auto

lemma js_split_at_first:
  "sep \<notin> set k \<Longrightarrow> js_split sep (k @ sep # rest) = k # js_split sep rest"
  by (induction k) auto

lemma js_split_second:
  assumes "sep \<notin> set k"
  shows "\<exists>ps. js_split sep (k @ sep # rest) = k # takeWhile (\<lambda>c. c \<noteq> sep) rest # ps"
proof -
  have n: "sep \<notin> set (takeWhile (\<lambda>c. c \<noteq> sep) rest)"
    by (auto dest: set_takeWhileD)
  show ?thesis
  proof (cases "dropWhile (\<lambda>c. c \<noteq> sep) rest")
    case Nil
    then have "rest = takeWhile (\<lambda>c. c \<noteq> sep) rest"
      by (metis append_Nil2 takeWhile_dropWhile_id)
    then have "js_split sep rest = [takeWhile (\<lambda>c. c \<noteq> sep) rest]"
      using js_split_no_sep[OF n] by simp
    then show ?thesis using js_split_at_first[OF assms] by simp
  next
    case (Cons d ds)
    then have "d = sep" using hd_dropWhile[of "\<lambda>c. c \<noteq> sep" rest] by force
    then have "rest = takeWhile (\<lambda>c. c \<noteq> sep) rest @ sep # ds"
      using Cons by (metis takeWhile_dropWhile_id)
    then have "js_split sep rest = takeWhile (\<lambda>c. c \<noteq> sep) rest # js_split sep ds"
      using js_split_at_first[OF n, of ds] by simp
    then show ?thesis using js_split_at_first[OF assms] by simp
  qed
qed

section \<open>Properties of the review config reader\<close>

subsection \<open>The loop over the lines\<close>

lemma assign_line_no_separator:
  "CHR ''='' \<notin> set line \<Longrightarrow> assign_line file line = Inr file"
  by (simp add: assign_line_def js_includes_single)

lemma assign_line_separator:
  assumes "CHR ''='' \<notin> set key"
  shows "assign_line file (key @ CHR ''='' # rest) =
           Inr (set_property file key (js_trim (takeWhile (\<lambda>c. c \<noteq> CHR ''='') rest)))"
proof -
  obtain ps where "js_split (CHR ''='') (key @ CHR ''='' # rest) =
      key # takeWhile (\<lambda>c. c \<noteq> CHR ''='') rest # ps"
    using js_split_second[OF assms] by blast
  then show ?thesis by (simp add: assign_line_def js_includes_single)
qed

lemma assign_line_total: "\<exists>file'. assign_line file line = Inr file'"
proof (cases "CHR ''='' \<in> set line")
  case True
  then obtain key rest where "line = key @ CHR ''='' # rest" "CHR ''='' \<notin> set key"
    by (meson split_list_first)
  then show ?thesis using assign_line_separator by blast
next
  case False
  then show ?thesis by (simp add: assign_line_no_separator)
qed

lemma assign_lines_total: "\<exists>f'. assign_lines f lines = Inr f'"
proof (induction lines arbitrary: f)
  case Nil
  then show ?case by simp
next
  case (Cons line lines)
  obtain f1 where "assign_line f line = Inr f1" using assign_line_total by blast
  then show ?case using Cons.IH[of f1] by simp
qed

lemma assign_lines_append:
  "assign_lines f pre = Inr mid \<Longrightarrow> assign_lines f (pre @ post) = assign_lines mid post"
  by (induction pre arbitrary: f) (auto split: sum.splits)


lemma set_property_other: "k \<noteq> key \<Longrightarrow> set_property f key v k = f k"
  by (simp add: set_property_def)

lemma assign_line_other_key:
  assumes "assign_line f l = Inr f'" and "\<not> prefix (key @ ''='') l"
  shows "f' key = f key"
proof (cases "CHR ''='' \<in> set l")
  case True
  then obtain k r where l: "l = k @ CHR ''='' # r" and k: "CHR ''='' \<notin> set k"
    by (meson split_list_first)
  from assms(2) l have "k \<noteq> key" by auto
  then show ?thesis using assms(1) assign_line_separator[OF k, of f r] l
    by (auto simp: set_property_other)
next
  case False
  then show ?thesis using assms(1) by (simp add: assign_line_no_separator)
qed

lemma assign_lines_other_key:
  "assign_lines f ls = Inr f' \<Longrightarrow> \<forall>l\<in>set ls. \<not> prefix (key @ ''='') l \<Longrightarrow> f' key = f key"
proof (induction ls arbitrary: f)
  case Nil
  then show ?case by simp
next
  case (Cons l ls)
  obtain f1 where f1: "assign_line f l = Inr f1" using assign_line_total by blast
  with Cons.prems have "assign_lines f1 ls = Inr f'" by simp
  then have "f' key = f1 key" using Cons.IH Cons.prems(2) by simp
  moreover have "f1 key = f key" using assign_line_other_key[OF f1] Cons.prems(2) by simp
  ultimately show ?case by simp
qed

subsection \<open>Claim C1: what a line with a separator assigns\<close>

text \<open>
  C1, as the code has it. Take a line \<open>key = value\<close> of the file with no \<^verbatim>\<open>=\<close> in \<open>key\<close> and
  none in \<open>value\<close>. Processing it stores one assignment and changes nothing else: the
  property name is \<open>key\<close> exactly as written (it is not trimmed), and the value is all of
  \<open>value\<close>, trimmed. When no later line starts with \<open>key =\<close>, that value is the one a
  successful parse returns under \<open>key\<close>. The name \<^verbatim>\<open>__proto__\<close> is left out: JavaScript stores
  nothing for it. (What the code does with a value that holds a further \<^verbatim>\<open>=\<close> is
  \<open>assign_line_separator\<close> above; the statement here does not cover it.)
\<close>

theorem parseGerritFile_line_assignment:
  assumes lines: "js_split (CHR 0x0A) fileContent = pre @ line # post"
    and line: "line = key @ ''='' @ val"
    and key: "CHR ''='' \<notin> set key"
    and val: "CHR ''='' \<notin> set val"
    and proto: "key \<noteq> ''__proto__''"
  shows "\<exists>before. assign_lines Map.empty pre = Inr before \<and>
           assign_lines Map.empty (pre @ [line]) = Inr (before(key \<mapsto> js_trim val)) \<and>
           ((\<forall>l\<in>set post. \<not> prefix (key @ ''='') l) \<longrightarrow>
              (\<forall>msgs parsed. parseGerritFile fileContent = Inr (msgs, Some parsed) \<longrightarrow>
                 parsed key = Some (js_trim val)))"
proof -
  have whole: "takeWhile (\<lambda>c. c \<noteq> CHR ''='') val = val"
    using val by (auto simp: takeWhile_eq_all_conv)
  obtain before where b: "assign_lines Map.empty pre = Inr before"
    using assign_lines_total by blast
  have step: "assign_line before line = Inr (before(key \<mapsto> js_trim val))"
    using assign_line_separator[OF key, of before val] line proto whole
    by (simp add: set_property_def)
  have upto: "assign_lines Map.empty (pre @ [line]) = Inr (before(key \<mapsto> js_trim val))"
    using assign_lines_append[OF b, of "[line]"] step by simp
  have final: "parsed key = Some (js_trim val)"
    if later: "\<forall>l\<in>set post. \<not> prefix (key @ ''='') l"
      and parse: "parseGerritFile fileContent = Inr (msgs, Some parsed)" for msgs parsed
  proof -
    have all: "assign_lines Map.empty (js_split (CHR 0x0A) fileContent) = Inr parsed"
      using parse by (auto simp: parseGerritFile_def split: if_splits sum.splits)
    have "assign_lines Map.empty ((pre @ [line]) @ post) =
        assign_lines (before(key \<mapsto> js_trim val)) post"
      using assign_lines_append[OF upto] by blast
    then have "assign_lines (before(key \<mapsto> js_trim val)) post = Inr parsed"
      using all lines by simp
    from assign_lines_other_key[OF this later] show ?thesis by simp
  qed
  show ?thesis using b upto final by blast
qed

theorem parseGerritFile_line_assignment_witness:
  "js_split (CHR 0x0A) ''[gerrit]\<newline> host = example.com \<newline>project=foo/bar'' =
     [''[gerrit]''] @ '' host = example.com '' # [''project=foo/bar''] \<and>
   assign_lines Map.empty ([''[gerrit]''] @ ['' host = example.com '']) =
     Inr ['' host '' \<mapsto> ''example.com''] \<and>
   parseGerritFile ''[gerrit]\<newline>host=example.com\<newline>project=foo/bar'' =
     Inr ([], Some [''host'' \<mapsto> ''example.com'', ''project'' \<mapsto> ''foo/bar''])"
proof -
  let ?c = "''[gerrit]\<newline> host = example.com \<newline>project=foo/bar''"
  have h1: "js_split (CHR 0x0A) ?c = [''[gerrit]''] @ '' host = example.com '' # [''project=foo/bar'']"
    by simp
  have h2: "'' host = example.com '' = '' host '' @ ''='' @ '' example.com ''" by simp
  have h3: "CHR ''='' \<notin> set '' host ''" by simp
  have h4: "CHR ''='' \<notin> set '' example.com ''" by simp
  have h5: "'' host '' \<noteq> ''__proto__''" by simp
  have before: "assign_lines Map.empty [''[gerrit]''] = Inr Map.empty"
    by (simp add: assign_line_def)
  have trimmed: "js_trim '' example.com '' = ''example.com''"
    by (simp add: js_trim_def is_white_space_def)
  from parseGerritFile_line_assignment [OF h1 h2 h3 h4 h5] before
  have stored: "assign_lines Map.empty ([''[gerrit]''] @ ['' host = example.com '']) =
      Inr ['' host '' \<mapsto> ''example.com'']"
    unfolding trimmed by auto
  let ?d = "''[gerrit]\<newline>host=example.com\<newline>project=foo/bar''"
  have g1: "js_split (CHR 0x0A) ?d = [''[gerrit]''] @ ''host=example.com'' # [''project=foo/bar'']"
    by simp
  have g2: "''host=example.com'' = ''host'' @ ''='' @ ''example.com''" by simp
  have g3: "CHR ''='' \<notin> set ''host''" by simp
  have g4: "CHR ''='' \<notin> set ''example.com''" by simp
  have g5: "''host'' \<noteq> ''__proto__''" by simp
  have later: "\<forall>l\<in>set [''project=foo/bar'']. \<not> prefix (''host'' @ ''='') l" by simp
  have parse: "parseGerritFile ?d =
      Inr ([], Some [''host'' \<mapsto> ''example.com'', ''project'' \<mapsto> ''foo/bar''])"
    by (simp add: parseGerritFile_def assign_line_def set_property_def js_trim_def
        is_white_space_def falsy_def)
  from parseGerritFile_line_assignment [OF g1 g2 g3 g4 g5] later parse
  have "[''host'' \<mapsto> ''example.com'', ''project'' \<mapsto> ''foo/bar''] ''host'' =
      Some (js_trim ''example.com'')"
    by auto
  then show ?thesis using h1 stored parse by simp
qed

text \<open>
  C1 as the spec words it fails on the lines \<^verbatim>\<open>" port =29418"\<close> and \<^verbatim>\<open>"branch=a=b"\<close>: the
  claim has \<^verbatim>\<open>29418\<close> stored under \<^verbatim>\<open>port\<close> and \<^verbatim>\<open>a=b\<close> under \<^verbatim>\<open>branch\<close>; the code stores
  \<^verbatim>\<open>29418\<close> under \<^verbatim>\<open>" port "\<close>, nothing under \<^verbatim>\<open>port\<close>, and \<^verbatim>\<open>a\<close> under \<^verbatim>\<open>branch\<close>.
\<close>

theorem parseGerritFile_first_separator_counterexample:
  "parseGerritFile ''[gerrit]\<newline>host=h\<newline>project=p\<newline> port =29418\<newline>branch=a=b'' =
     Inr ([], Some [''host'' \<mapsto> ''h'', ''project'' \<mapsto> ''p'', '' port '' \<mapsto> ''29418'',
                    ''branch'' \<mapsto> ''a'']) \<and>
   [''host'' \<mapsto> ''h'', ''project'' \<mapsto> ''p'', '' port '' \<mapsto> ''29418'', ''branch'' \<mapsto> ''a'']
     ''port'' = None \<and>
   parseGerritFile ''[gerrit]\<newline>host=h\<newline>project=p\<newline> port =29418\<newline>branch=a=b'' \<noteq>
     Inr ([], Some [''host'' \<mapsto> ''h'', ''project'' \<mapsto> ''p'', ''port'' \<mapsto> ''29418'',
                    ''branch'' \<mapsto> ''a=b''])"
proof -
  have run: "parseGerritFile
      ''[gerrit]\<newline>host=h\<newline>project=p\<newline> port =29418\<newline>branch=a=b'' =
     Inr ([], Some [''host'' \<mapsto> ''h'', ''project'' \<mapsto> ''p'', '' port '' \<mapsto> ''29418'',
                    ''branch'' \<mapsto> ''a''])"
    by (simp add: parseGerritFile_def assign_line_def set_property_def js_trim_def
        is_white_space_def falsy_def)
  have "[''host'' \<mapsto> ''h'', ''project'' \<mapsto> ''p'', '' port '' \<mapsto> ''29418'', ''branch'' \<mapsto> ''a'']
          ''port'' \<noteq>
        [''host'' \<mapsto> ''h'', ''project'' \<mapsto> ''p'', ''port'' \<mapsto> ''29418'', ''branch'' \<mapsto> ''a=b'']
          ''port''"
    by simp
  then have "[''host'' \<mapsto> ''h'', ''project'' \<mapsto> ''p'', '' port '' \<mapsto> ''29418'', ''branch'' \<mapsto> ''a''] \<noteq>
        [''host'' \<mapsto> ''h'', ''project'' \<mapsto> ''p'', ''port'' \<mapsto> ''29418'', ''branch'' \<mapsto> ''a=b'']"
    by metis
  then show ?thesis using run by simp
qed

subsection \<open>Claim C5: when the parse returns nothing\<close>

text \<open>
  C5. \<^verbatim>\<open>parseGerritFile\<close> never throws: it returns, with the messages it logged. With
  \<open>fields\<close> the object the loop over all lines has built, the result is nothing exactly when
  the content lacks the marker \<^verbatim>\<open>[gerrit]\<close> or \<open>fields\<close> has no host or no project (the
  property is absent or empty, which is what \<^verbatim>\<open>!file.host\<close> tests); otherwise the result is
  \<open>fields\<close>. The warning is logged exactly in the second case, and nothing else is ever
  logged.
\<close>

theorem parseGerritFile_nothing_iff:
  "\<exists>msgs result fields.
     parseGerritFile fileContent = Inr (msgs, result) \<and>
     assign_lines Map.empty (js_split (CHR 0x0A) fileContent) = Inr fields \<and>
     (result = None \<longleftrightarrow>
        \<not> js_includes fileContent ''[gerrit]'' \<or> falsy (fields ''host'') \<or> falsy (fields ''project'')) \<and>
     (result = None \<or> result = Some fields) \<and>
     (msgs = [missing_fields_warning] \<longleftrightarrow>
        js_includes fileContent ''[gerrit]'' \<and> (falsy (fields ''host'') \<or> falsy (fields ''project''))) \<and>
     (msgs = [] \<or> msgs = [missing_fields_warning])"
proof -
  obtain fields where f: "assign_lines Map.empty (js_split (CHR 0x0A) fileContent) = Inr fields"
    using assign_lines_total by blast
  show ?thesis using f by (auto simp: parseGerritFile_def)
qed

theorem parseGerritFile_nothing_iff_witness:
  "parseGerritFile ''[gerrit]\<newline>host=example.com\<newline>'' = Inr ([missing_fields_warning], None) \<and>
   parseGerritFile ''host=example.com\<newline>project=foo/bar'' = Inr ([], None) \<and>
   js_includes ''[gerrit]\<newline>host=example.com\<newline>'' ''[gerrit]'' \<and>
   \<not> js_includes ''host=example.com\<newline>project=foo/bar'' ''[gerrit]''"
proof -
  have f1: "assign_lines Map.empty (js_split (CHR 0x0A) ''[gerrit]\<newline>host=example.com\<newline>'') =
      Inr [''host'' \<mapsto> ''example.com'']"
    by (simp add: assign_line_def set_property_def js_trim_def is_white_space_def)
  have i1: "js_includes ''[gerrit]\<newline>host=example.com\<newline>'' ''[gerrit]''" by simp
  have i2: "\<not> js_includes ''host=example.com\<newline>project=foo/bar'' ''[gerrit]''" by simp
  from parseGerritFile_nothing_iff [of "''[gerrit]\<newline>host=example.com\<newline>''"] f1 i1
  have r1: "parseGerritFile ''[gerrit]\<newline>host=example.com\<newline>'' =
      Inr ([missing_fields_warning], None)"
    by (auto simp: falsy_def)
  from parseGerritFile_nothing_iff [of "''host=example.com\<newline>project=foo/bar''"] i2
  have r2: "parseGerritFile ''host=example.com\<newline>project=foo/bar'' = Inr ([], None)"
    by auto
  show ?thesis using r1 r2 i1 i2 by blast
qed

subsection \<open>The loop over the roots\<close>

lemma parseGerritFile_empty: "parseGerritFile [] = Inr ([], None)"
  by (simp add: parseGerritFile_def)

lemma scan_folders_skip:
  assumes "rd g = None \<or> (\<exists>c m. rd g = Some c \<and> parseGerritFile c = Inr (m, None))"
  shows "\<exists>s1. scan_folders rd (g # rest) s = scan_folders rd rest s1 \<and>
           reads s1 = reads s @ [g] \<and> gitReviewFile s1 = gitReviewFile s"
proof (cases "rd g")
  case None
  then have "scan_folders rd (g # rest) s = scan_folders rd rest (s\<lparr>reads := reads s @ [g]\<rparr>)"
    by simp
  then show ?thesis by (intro exI[of _ "s\<lparr>reads := reads s @ [g]\<rparr>"]) simp
next
  case (Some c)
  with assms obtain m where m: "parseGerritFile c = Inr (m, None)" by auto
  show ?thesis
  proof (cases "c = []")
    case True
    then have "scan_folders rd (g # rest) s = scan_folders rd rest (s\<lparr>reads := reads s @ [g]\<rparr>)"
      using Some by simp
    then show ?thesis by (intro exI[of _ "s\<lparr>reads := reads s @ [g]\<rparr>"]) simp
  next
    case False
    then have "scan_folders rd (g # rest) s =
        scan_folders rd rest (s\<lparr>reads := reads s @ [g], logged := logged s @ m\<rparr>)"
      using Some m by simp
    then show ?thesis
      by (intro exI[of _ "s\<lparr>reads := reads s @ [g], logged := logged s @ m\<rparr>"]) simp
  qed
qed

lemma scan_folders_skip_all:
  assumes "\<forall>g\<in>set pre. rd g = None \<or> (\<exists>c m. rd g = Some c \<and> parseGerritFile c = Inr (m, None))"
  shows "\<exists>s1. scan_folders rd (pre @ rest) s = scan_folders rd rest s1 \<and>
           reads s1 = reads s @ pre \<and> gitReviewFile s1 = gitReviewFile s"
  using assms
proof (induction pre arbitrary: s)
  case Nil
  show ?case by (intro exI[of _ s]) simp
next
  case (Cons g pre)
  then have g: "rd g = None \<or> (\<exists>c m. rd g = Some c \<and> parseGerritFile c = Inr (m, None))"
    by simp
  obtain s1 where s1: "scan_folders rd (g # (pre @ rest)) s = scan_folders rd (pre @ rest) s1"
    "reads s1 = reads s @ [g]" "gitReviewFile s1 = gitReviewFile s"
    using scan_folders_skip[of rd g "pre @ rest" s] g by blast
  obtain s2 where s2: "scan_folders rd (pre @ rest) s1 = scan_folders rd rest s2"
    "reads s2 = reads s1 @ pre" "gitReviewFile s2 = gitReviewFile s1"
    using Cons.IH[of s1] Cons.prems by auto
  show ?case using s1 s2 by (intro exI[of _ s2]) simp
qed

lemma scan_folders_hit:
  assumes "rd g = Some c" and "parseGerritFile c = Inr (m, Some parsed)"
  shows "\<exists>s1. scan_folders rd (g # rest) s = Inr (Some parsed, s1) \<and>
           reads s1 = reads s @ [g] \<and> gitReviewFile s1 = gitReviewFile s"
proof -
  have "c \<noteq> []" using assms(2) parseGerritFile_empty by auto
  then have "scan_folders rd (g # rest) s =
      Inr (Some parsed, s\<lparr>reads := reads s @ [g], logged := logged s @ m\<rparr>)"
    using assms by simp
  then show ?thesis
    by (intro exI[of _ "s\<lparr>reads := reads s @ [g], logged := logged s @ m\<rparr>"]) simp
qed

lemma parseGerritFile_total: "\<exists>m r. parseGerritFile c = Inr (m, r)"
proof -
  obtain f where "assign_lines Map.empty (js_split (CHR 0x0A) c) = Inr f"
    using assign_lines_total by blast
  then show ?thesis by (simp add: parseGerritFile_def)
qed

lemma scan_folders_total: "\<exists>r s1. scan_folders rd fs s = Inr (r, s1)"
proof (induction fs arbitrary: s)
  case Nil
  then show ?case by simp
next
  case (Cons g fs)
  show ?case
  proof (cases "rd g")
    case None
    then show ?thesis using Cons.IH by simp
  next
    case (Some c)
    obtain m r where "parseGerritFile c = Inr (m, r)" using parseGerritFile_total by blast
    then show ?thesis using Some Cons.IH by (cases r) (simp_all add: Let_def)
  qed
qed

subsection \<open>Claim C6: the search over the workspace roots\<close>

text \<open>
  C6. \<^verbatim>\<open>getGitReviewFile\<close> always returns. It visits the roots in the order given: when the
  roots before some root each fail to be read or hold a file that does not parse, and that
  root's file reads and parses, the result is that root's config, and the files asked for
  are exactly those of the roots up to and including it (no later root is visited). When
  every root fails to be read or to parse, the result is nothing and every root was asked
  for, in order. A failed read is not an error: it counts like a file that does not parse.
\<close>

theorem getGitReviewFile_first_valid_root:
  "(\<exists>r s'. getGitReviewFile ws s = Inr (r, s')) \<and>
   (workspace_roots ws = pre @ folder # post \<and>
    (\<forall>g\<in>set pre. readFile ws g = None \<or>
        (\<exists>c m. readFile ws g = Some c \<and> parseGerritFile c = Inr (m, None))) \<and>
    readFile ws folder = Some content \<and> parseGerritFile content = Inr (msgs, Some parsed)
    \<longrightarrow> (\<exists>s'. getGitReviewFile ws s = Inr (Some parsed, s') \<and>
              reads s' = reads s @ pre @ [folder] \<and> gitReviewFile s' = gitReviewFile s)) \<and>
   ((\<forall>g\<in>set (workspace_roots ws). readFile ws g = None \<or>
        (\<exists>c m. readFile ws g = Some c \<and> parseGerritFile c = Inr (m, None)))
    \<longrightarrow> (\<exists>s'. getGitReviewFile ws s = Inr (None, s') \<and>
              reads s' = reads s @ workspace_roots ws \<and> gitReviewFile s' = gitReviewFile s))"
proof (intro conjI impI)
  show "\<exists>r s'. getGitReviewFile ws s = Inr (r, s')"
    using scan_folders_total by (simp add: getGitReviewFile_def)
next
  assume a: "workspace_roots ws = pre @ folder # post \<and>
    (\<forall>g\<in>set pre. readFile ws g = None \<or>
        (\<exists>c m. readFile ws g = Some c \<and> parseGerritFile c = Inr (m, None))) \<and>
    readFile ws folder = Some content \<and> parseGerritFile content = Inr (msgs, Some parsed)"
  then obtain s1 where s1:
    "scan_folders (readFile ws) (pre @ folder # post) s = scan_folders (readFile ws) (folder # post) s1"
    "reads s1 = reads s @ pre" "gitReviewFile s1 = gitReviewFile s"
    using scan_folders_skip_all[of pre "readFile ws" "folder # post" s] by blast
  obtain s2 where s2: "scan_folders (readFile ws) (folder # post) s1 = Inr (Some parsed, s2)"
    "reads s2 = reads s1 @ [folder]" "gitReviewFile s2 = gitReviewFile s1"
    using scan_folders_hit[of "readFile ws" folder content msgs parsed post s1] a by blast
  show "\<exists>s'. getGitReviewFile ws s = Inr (Some parsed, s') \<and>
              reads s' = reads s @ pre @ [folder] \<and> gitReviewFile s' = gitReviewFile s"
    using a s1 s2 by (intro exI[of _ s2]) (simp add: getGitReviewFile_def)
next
  assume a: "\<forall>g\<in>set (workspace_roots ws). readFile ws g = None \<or>
        (\<exists>c m. readFile ws g = Some c \<and> parseGerritFile c = Inr (m, None))"
  obtain s1 where s1:
    "scan_folders (readFile ws) (workspace_roots ws @ []) s = scan_folders (readFile ws) [] s1"
    "reads s1 = reads s @ workspace_roots ws" "gitReviewFile s1 = gitReviewFile s"
    using scan_folders_skip_all[of "workspace_roots ws" "readFile ws" "[]" s] a by blast
  show "\<exists>s'. getGitReviewFile ws s = Inr (None, s') \<and>
              reads s' = reads s @ workspace_roots ws \<and> gitReviewFile s' = gitReviewFile s"
    using s1 by (intro exI[of _ s1]) (simp add: getGitReviewFile_def)
qed

theorem getGitReviewFile_first_valid_root_witness:
  "(\<exists>s'. getGitReviewFile example_workspace initial_config_state =
           Inr (Some [''host'' \<mapsto> ''h'', ''project'' \<mapsto> ''p''], s') \<and>
         reads s' = [''/a'', ''/b'']) \<and>
   (\<exists>s'. getGitReviewFile example_workspace_without_config initial_config_state = Inr (None, s') \<and>
         reads s' = [''/a'', ''/b''])"
proof -
  have roots: "workspace_roots example_workspace = [''/a''] @ ''/b'' # [''/c'']"
    by (simp add: workspace_roots_def example_workspace_def)
  have before: "\<forall>g\<in>set [''/a'']. readFile example_workspace g = None \<or>
      (\<exists>c m. readFile example_workspace g = Some c \<and> parseGerritFile c = Inr (m, None))"
    by (simp add: example_workspace_def)
  have rd: "readFile example_workspace ''/b'' = Some ''[gerrit]\<newline>host=h\<newline>project=p''"
    by (simp add: example_workspace_def)
  have parse: "parseGerritFile ''[gerrit]\<newline>host=h\<newline>project=p'' =
      Inr ([], Some [''host'' \<mapsto> ''h'', ''project'' \<mapsto> ''p''])"
    by (simp add: parseGerritFile_def assign_line_def set_property_def js_trim_def
        is_white_space_def falsy_def)
  have roots2: "workspace_roots example_workspace_without_config = [''/a'', ''/b'']"
    by (simp add: workspace_roots_def example_workspace_without_config_def)
  have parse2: "parseGerritFile ''[gerrit]\<newline>host=h'' = Inr ([missing_fields_warning], None)"
    by (simp add: parseGerritFile_def assign_line_def set_property_def js_trim_def
        is_white_space_def falsy_def)
  have none: "\<forall>g\<in>set (workspace_roots example_workspace_without_config).
      readFile example_workspace_without_config g = None \<or>
      (\<exists>c m. readFile example_workspace_without_config g = Some c \<and>
         parseGerritFile c = Inr (m, None))"
    using parse2 by (simp add: roots2 example_workspace_without_config_def)
  have first: "\<exists>s'. getGitReviewFile example_workspace initial_config_state =
           Inr (Some [''host'' \<mapsto> ''h'', ''project'' \<mapsto> ''p''], s') \<and>
         reads s' = [''/a'', ''/b'']"
    using getGitReviewFile_first_valid_root [of example_workspace initial_config_state
        "[''/a'']" "''/b''" "[''/c'']" "''[gerrit]\<newline>host=h\<newline>project=p''" "[]"
        "[''host'' \<mapsto> ''h'', ''project'' \<mapsto> ''p'']"]
      roots before rd parse
    by (auto simp: initial_config_state_def)
  have second: "\<exists>s'. getGitReviewFile example_workspace_without_config initial_config_state =
           Inr (None, s') \<and> reads s' = [''/a'', ''/b'']"
    using getGitReviewFile_first_valid_root [of example_workspace_without_config
        initial_config_state "[]" "[]" "[]" "[]" "[]" Map.empty] none
    by (auto simp: roots2 initial_config_state_def)
  show ?thesis using first second by blast
qed

subsection \<open>The cached reader\<close>





subsection \<open>Claim C4: what the cache keeps\<close>




section \<open>Properties of the thread identity adapter\<close>

subsection \<open>The counter\<close>

lemma counter_value_zero: "counter_value zero_counter = 0"
  by (rule zero_counter.rep_eq)

lemma counter_value_max: "counter_value max_counter = 2 ^ 53"
  by (rule max_counter.rep_eq)

lemma counter_value_le: "counter_value c \<le> 2 ^ 53"
  using counter_value [of c] by simp

lemma counter_value_increment:
  "counter_value (js_increment c) =
     (if counter_value c < 2 ^ 53 then counter_value c + 1 else counter_value c)"
  by (rule js_increment.rep_eq)

lemma js_increment_max: "js_increment max_counter = max_counter"
  by (simp add: counter_value_inject [symmetric] counter_value_increment counter_value_max)

text \<open>After \<open>k\<close> increments from 0 the counter is \<open>k\<close>, or \<open>2\<^sup>5\<^sup>3\<close> if \<open>k\<close> is more.\<close>

lemma counter_value_increments:
  "counter_value ((js_increment ^^ k) zero_counter) = min k (2 ^ 53)"
proof (induction k)
  case 0
  then show ?case by (simp add: counter_value_zero)
next
  case (Suc k)
  then show ?case by (simp add: counter_value_increment min_def)
qed

lemma max_counter_reached: "(js_increment ^^ (2 ^ 53)) zero_counter = max_counter"
  by (simp add: counter_value_inject [symmetric] counter_value_increments counter_value_max)

subsection \<open>Identifiers as strings\<close>

lemma digit_char_inj: "a < 10 \<Longrightarrow> b < 10 \<Longrightarrow> digit_char a = digit_char b \<Longrightarrow> a = b"
proof -
  assume a: "a < 10" and b: "b < 10" and e: "digit_char a = digit_char b"
  have d: "distinct ''0123456789''" by simp
  have "a < length ''0123456789''" "b < length ''0123456789''" using a b by simp_all
  then show "a = b" using e d unfolding digit_char_def
    by (simp only: nth_eq_iff_index_eq)
qed

lemma digit_char_in: "d < 10 \<Longrightarrow> digit_char d \<in> set ''0123456789''"
  unfolding digit_char_def by (rule nth_mem) simp

lemma js_String_not_Nil: "js_String n \<noteq> []"
  by (subst js_String.simps) simp

lemma js_String_digits: "set (js_String n) \<subseteq> set ''0123456789''"
proof (induction n rule: js_String.induct)
  case (1 n)
  show ?case
  proof (cases "n < 10")
    case True
    then show ?thesis using digit_char_in[of n] by (subst js_String.simps) simp
  next
    case False
    have "n mod 10 < 10" by simp
    from digit_char_in[OF this] "1.IH"[OF False] False
    show ?thesis by (subst js_String.simps) simp
  qed
qed

lemma js_String_no_bar: "CHR ''|'' \<notin> set (js_String n)"
  using js_String_digits[of n] by auto

lemma js_String_inj: "js_String a = js_String b \<Longrightarrow> a = b"
proof (induction a arbitrary: b rule: js_String.induct)
  case (1 a)
  show ?case
  proof (cases "a < 10")
    case a: True
    show ?thesis
    proof (cases "b < 10")
      case True
      with a "1.prems" have "digit_char a = digit_char b"
        by (simp add: js_String.simps[of a] js_String.simps[of b])
      then show ?thesis using a True digit_char_inj by blast
    next
      case False
      with a "1.prems" have "[digit_char a] = js_String (b div 10) @ [digit_char (b mod 10)]"
        by (simp add: js_String.simps[of a] js_String.simps[of b])
      then have "js_String (b div 10) = []" by simp
      then show ?thesis using js_String_not_Nil by blast
    qed
  next
    case a: False
    show ?thesis
    proof (cases "b < 10")
      case True
      with a "1.prems" have "js_String (a div 10) @ [digit_char (a mod 10)] = [digit_char b]"
        by (simp add: js_String.simps[of a] js_String.simps[of b])
      then have "js_String (a div 10) = []" by simp
      then show ?thesis using js_String_not_Nil by blast
    next
      case False
      with a "1.prems" have "js_String (a div 10) @ [digit_char (a mod 10)] =
          js_String (b div 10) @ [digit_char (b mod 10)]"
        by (simp add: js_String.simps[of a] js_String.simps[of b])
      then have e: "js_String (a div 10) = js_String (b div 10)"
        and d: "digit_char (a mod 10) = digit_char (b mod 10)" by simp_all
      have "a div 10 = b div 10" using "1.IH"[OF a e] .
      moreover have "a mod 10 = b mod 10" using digit_char_inj[OF _ _ d] by simp
      ultimately show ?thesis by (metis div_mult_mod_eq)
    qed
  qed
qed

lemma getThreadID_fresh:
  "getThreadID (t\<lparr>contextValue := Some (js_String n @ ''|'' @ rest)\<rparr>) = Some (js_String n)"
proof -
  have "js_split (CHR ''|'') (js_String n @ CHR ''|'' # rest) = js_String n # js_split (CHR ''|'') rest"
    using js_split_at_first[OF js_String_no_bar] .
  then show ?thesis using js_String_not_Nil[of n] by (simp add: getThreadID_def)
qed

lemma store_modify_thread [simp]:
  "store (modify_thread h f s) = (store s)(h := f (store s h))"
  and lastThreadId_modify_thread [simp]: "lastThreadId (modify_thread h f s) = lastThreadId s"
  and threadMap_modify_thread [simp]: "threadMap (modify_thread h f s) = threadMap s"
  and managers_modify_thread [simp]: "managers (modify_thread h f s) = managers s"
  by (simp_all add: modify_thread_def)

lemma new_GerritCommentThread_eq:
  "new_GerritCommentThread E h s =
     (\<lparr>threadID = js_String (counter_value (lastThreadId s)), thread = h,
        filePath = tryGetFileMeta E (uri (store s h))\<rparr>,
      s\<lparr>lastThreadId := js_increment (lastThreadId s),
        store := (store s)(h := (store s h)\<lparr>contextValue :=
          Some (js_String (counter_value (lastThreadId s)) @ ''|'')\<rparr>),
        threadMap := (threadMap s)(js_String (counter_value (lastThreadId s)) \<mapsto>
          \<lparr>threadID = js_String (counter_value (lastThreadId s)), thread = h,
            filePath = tryGetFileMeta E (uri (store s h))\<rparr>)\<rparr>)"
  by (simp add: new_GerritCommentThread_def setThreadID_def generateID_def modify_thread_def
      Let_def)

subsection \<open>The example inputs\<close>

lemma js_String_0: "js_String 0 = ''0''"
  by (simp add: js_String.simps digit_char_def)

lemma js_String_1: "js_String 1 = ''1''"
  by (simp add: js_String.simps digit_char_def)

lemma js_String_max: "js_String (2 ^ 53) = ''9007199254740992''"
  by (simp add: js_String.simps digit_char_def)

lemma example_state_counter: "counter_value (lastThreadId example_state) = 0"
  by (simp add: example_state_def initial_state_def counter_value_zero)

lemma example_state_exhausted_counter:
  "counter_value (lastThreadId example_state_exhausted) = 2 ^ 53"
  by (simp add: example_state_exhausted_def counter_value_max)

lemma example_state_with_comments:
  "comments (store (example_state_with cs) 0) = cs"
  by (simp add: example_state_with_def)

lemma thread_example_records:
  "thread example_record = 0" "thread example_record_without_path = 0"
  by (simp_all add: example_record_def example_record_without_path_def)

lemma example_state_with_fields:
  "uri (store (example_state_with cs) 0) = ''file:///src/a.ts''"
  "managers (example_state_with cs) = ()"
  by (simp_all add: example_state_with_def example_state_def initial_state_def example_thread_def)

lemma lastComment_example_state_with:
  "lastComment (example_state_with [c]) example_record = Some c"
  "lastComment (example_state_with [c]) example_record_without_path = Some c"
  "lastComment (example_state_with []) example_record = None"
  by (simp_all add: lastComment_def thread_example_records example_state_with_comments)

subsection \<open>Claim C10: a thread without comments is resolved\<close>

text \<open>
  C10. A thread whose comment list is empty has no last comment, and a thread with no last
  comment is reported as resolved.
\<close>

theorem resolved_without_comments:
  "(comments (store s (thread this)) = [] \<longrightarrow> lastComment s this = None) \<and>
   (lastComment s this = None \<longrightarrow> resolved s this)"
  by (simp add: lastComment_def resolved_def)

theorem resolved_without_comments_witness:
  "comments (store example_state (thread \<lparr>threadID = ''0'', thread = 0, filePath = None\<rparr>)) = [] \<and>
   lastComment example_state \<lparr>threadID = ''0'', thread = 0, filePath = None\<rparr> = None \<and>
   resolved example_state \<lparr>threadID = ''0'', thread = 0, filePath = None\<rparr>"
proof -
  have e: "comments (store example_state (thread \<lparr>threadID = ''0'', thread = 0, filePath = None\<rparr>)) = []"
    by (simp add: example_state_def initial_state_def example_thread_def)
  show ?thesis
    using resolved_without_comments [of example_state
        "\<lparr>threadID = ''0'', thread = 0, filePath = None\<rparr>"] e
    by blast
qed

subsection \<open>Claim C3: a failed creation is not rolled back\<close>



lemma from_CommentThread_known:
  assumes "threadMap s (js_String n) = Some g"
    and "contextValue (store s h) = Some (js_String n @ ''|'' @ rest)"
  shows "from_CommentThread E h s = (Some g, s)"
proof -
  have "store s h = (store s h)\<lparr>contextValue := Some (js_String n @ ''|'' @ rest)\<rparr>"
    using assms(2) by simp
  then have "getThreadID (store s h) = Some (js_String n)"
    using getThreadID_fresh[where t = "store s h" and n = n and rest = rest] by simp
  then show ?thesis using assms(1) js_String_not_Nil[of n]
    by (simp add: from_CommentThread_def)
qed

subsection \<open>Claim C8: identifiers of threads created in sequence\<close>

text \<open>
  C8, as the code has it. The counter starts at 0. While the counter is below \<open>2\<^sup>5\<^sup>3\<close>, two
  records created one after the other get the counter's value and its successor as
  identifiers, the counter advancing by one for a creation; the two identifiers differ as
  strings, and both records are in the table under them. Disposing the first record removes
  the entry of its identifier and no other: the second record is still in the table, and
  \<^verbatim>\<open>from\<close> on the second handle finds it.
\<close>

theorem thread_identifiers_increase:
  assumes c1: "new_GerritCommentThread E h1 s = (g1, s1)"
    and c2: "new_GerritCommentThread E h2 s1 = (g2, s2)"
    and below: "counter_value (lastThreadId s) < 2 ^ 53"
  shows "counter_value (lastThreadId (initial_state m hs)) = 0 \<and>
         threadID g1 = js_String (counter_value (lastThreadId s)) \<and>
         threadID g2 = js_String (counter_value (lastThreadId s) + 1) \<and>
         counter_value (lastThreadId s1) = counter_value (lastThreadId s) + 1 \<and>
         (counter_value (lastThreadId s1) < 2 ^ 53 \<longrightarrow>
            counter_value (lastThreadId s2) = counter_value (lastThreadId s) + 2) \<and>
         threadID g1 \<noteq> threadID g2 \<and>
         threadMap s2 (threadID g1) = Some g1 \<and>
         threadMap s2 (threadID g2) = Some g2 \<and>
         threadMap (dispose g1 s2) = (threadMap s2)(threadID g1 := None) \<and>
         threadMap (dispose g1 s2) (threadID g2) = Some g2 \<and>
         from_CommentThread E h2 (dispose g1 s2) = (Some g2, dispose g1 s2)"
proof -
  let ?n = "counter_value (lastThreadId s)"
  have ne: "js_String ?n \<noteq> js_String (?n + 1)" using js_String_inj[of ?n "?n + 1"] by auto
  have g1: "threadID g1 = js_String ?n" and l1: "lastThreadId s1 = js_increment (lastThreadId s)"
    and m1: "threadMap s1 = (threadMap s)(js_String ?n \<mapsto> g1)"
    using c1 by (auto simp: new_GerritCommentThread_eq)
  have n1: "counter_value (lastThreadId s1) = ?n + 1"
    unfolding l1 using below by (simp add: counter_value_increment)
  have g2: "threadID g2 = js_String (?n + 1)"
    and l2: "lastThreadId s2 = js_increment (lastThreadId s1)"
    and m2: "threadMap s2 = (threadMap s1)(js_String (?n + 1) \<mapsto> g2)"
    and cv: "contextValue (store s2 h2) = Some (js_String (?n + 1) @ ''|'')"
    using c2 n1 by (auto simp: new_GerritCommentThread_eq)
  have n2: "counter_value (lastThreadId s1) < 2 ^ 53 \<longrightarrow>
      counter_value (lastThreadId s2) = ?n + 2"
    unfolding l2 using n1 by (simp add: counter_value_increment)
  have d: "threadMap (dispose g1 s2) = (threadMap s2)(threadID g1 := None)"
    by (simp add: dispose_def thread_dispose_def)
  have cvd: "contextValue (store (dispose g1 s2) h2) = Some (js_String (?n + 1) @ ''|'' @ [])"
    using cv by (auto simp: dispose_def thread_dispose_def)
  have k: "threadMap (dispose g1 s2) (js_String (?n + 1)) = Some g2"
    using d g1 m2 ne by simp
  have r: "from_CommentThread E h2 (dispose g1 s2) = (Some g2, dispose g1 s2)"
    using from_CommentThread_known[OF k cvd] .
  have z: "counter_value (lastThreadId (initial_state m hs)) = 0"
    by (simp add: initial_state_def counter_value_zero)
  have t1: "threadMap s2 (threadID g1) = Some g1" using g1 m1 m2 ne by simp
  have t2: "threadMap s2 (threadID g2) = Some g2" using g2 m2 by simp
  have differ: "threadID g1 \<noteq> threadID g2" using g1 g2 ne by simp
  have k': "threadMap (dispose g1 s2) (threadID g2) = Some g2" using k g2 by simp
  show ?thesis using z g1 g2 n1 n2 differ t1 t2 d k' r by blast
qed

theorem thread_identifiers_increase_witness:
  "\<exists>g1 s1 g2 s2.
     new_GerritCommentThread example_env 0 example_state = (g1, s1) \<and>
     new_GerritCommentThread example_env 1 s1 = (g2, s2) \<and>
     threadID g1 = ''0'' \<and> threadID g2 = ''1'' \<and>
     counter_value (lastThreadId s1) = 1 \<and> counter_value (lastThreadId s2) = 2 \<and>
     threadMap (dispose g1 s2) ''0'' = None \<and>
     threadMap (dispose g1 s2) ''1'' = Some g2 \<and>
     from_CommentThread example_env 1 (dispose g1 s2) = (Some g2, dispose g1 s2)"
proof -
  obtain g1 s1 where c1: "new_GerritCommentThread example_env 0 example_state = (g1, s1)"
    by (cases "new_GerritCommentThread example_env 0 example_state")
  obtain g2 s2 where c2: "new_GerritCommentThread example_env 1 s1 = (g2, s2)"
    by (cases "new_GerritCommentThread example_env 1 s1")
  have below: "counter_value (lastThreadId example_state) < 2 ^ 53"
    by (simp add: example_state_counter)
  have e0: "js_String (counter_value (lastThreadId example_state)) = ''0''"
    using example_state_counter js_String_0 by simp
  have e1: "js_String (counter_value (lastThreadId example_state) + 1) = ''1''"
    using example_state_counter js_String_1 by simp
  note t = thread_identifiers_increase [OF c1 c2 below, of "()" "\<lambda>h. example_thread",
      unfolded e0 e1]
  have i1: "threadID g1 = ''0''" and i2: "threadID g2 = ''1''"
    using t by blast+
  have l1: "counter_value (lastThreadId s1) = 1"
    using t example_state_counter by simp
  have l2: "counter_value (lastThreadId s2) = 2"
    using t l1 example_state_counter by simp
  have d: "threadMap (dispose g1 s2) = (threadMap s2)(threadID g1 := None)"
    using t by blast
  have d1: "threadMap (dispose g1 s2) ''0'' = None"
    unfolding d i1 by simp
  have d2: "threadMap (dispose g1 s2) ''1'' = Some g2"
    using t i2 by metis
  have r: "from_CommentThread example_env 1 (dispose g1 s2) = (Some g2, dispose g1 s2)"
    using t by blast
  show ?thesis using c1 c2 i1 i2 l1 l2 d1 d2 r by blast
qed

text \<open>
  C8 as the spec words it fails once the counter stands at \<open>2\<^sup>5\<^sup>3\<close>, the value that
  \<open>2\<^sup>5\<^sup>3\<close> creations leave (\<open>max_counter_reached\<close>): the next two records both get the
  identifier \<^verbatim>\<open>9007199254740992\<close>, the second takes the place of the first in the table, and
  disposing the first removes the entry under which the second was to be found.
\<close>

theorem thread_identifiers_increase_counterexample:
  "counter_value (lastThreadId example_state_exhausted) = 9007199254740992 \<and>
   threadID (fst (new_GerritCommentThread example_env 0 example_state_exhausted)) =
     ''9007199254740992'' \<and>
   threadID (fst (new_GerritCommentThread example_env 1
      (snd (new_GerritCommentThread example_env 0 example_state_exhausted)))) =
     ''9007199254740992'' \<and>
   threadMap (dispose (fst (new_GerritCommentThread example_env 0 example_state_exhausted))
      (snd (new_GerritCommentThread example_env 1
        (snd (new_GerritCommentThread example_env 0 example_state_exhausted)))))
     ''9007199254740992'' = None"
proof -
  let ?c1 = "new_GerritCommentThread example_env 0 example_state_exhausted"
  let ?c2 = "new_GerritCommentThread example_env 1 (snd ?c1)"
  have v: "counter_value (lastThreadId example_state_exhausted) = 9007199254740992"
    by (simp add: example_state_exhausted_counter)
  have s: "js_String (counter_value (lastThreadId example_state_exhausted)) =
      ''9007199254740992''"
    using example_state_exhausted_counter js_String_max by simp
  have l1: "lastThreadId (snd ?c1) = max_counter"
    by (simp add: new_GerritCommentThread_eq example_state_exhausted_def js_increment_max)
  have s1: "js_String (counter_value (lastThreadId (snd ?c1))) = ''9007199254740992''"
    unfolding l1 using counter_value_max js_String_max by simp
  have i1: "threadID (fst ?c1) = ''9007199254740992''"
    using s by (simp add: new_GerritCommentThread_eq)
  have i2: "threadID (fst ?c2) = ''9007199254740992''"
    using s1 by (simp add: new_GerritCommentThread_eq)
  have "threadMap (dispose (fst ?c1) (snd ?c2)) (threadID (fst ?c1)) = None"
    by (simp add: dispose_def thread_dispose_def)
  then have gone: "threadMap (dispose (fst ?c1) (snd ?c2)) ''9007199254740992'' = None"
    unfolding i1 .
  show ?thesis using v i1 i2 gone by blast
qed

subsection \<open>What \<^verbatim>\<open>update\<close> recomputes\<close>

lemma foldl_add_sum_list:
  "foldl (\<lambda>n m. n + f m) (a::nat) ms = a + sum_list (map f ms)"
  by (induction ms arbitrary: a) simp_all

lemma comments_updateContextValues [simp]:
  "comments (store (updateContextValues this s) h) = comments (store s h)"
  by (simp add: updateContextValues_def setContextValue_def)

lemma update_label:
  "label (store (update E this isInitial s) (thread this)) =
     Some (if resolved s this then ''Comment'' else ''Comment (unresolved)'')"
  by (simp add: update_def Let_def resolved_def lastComment_def)

lemma update_canReply:
  "canReply (store (update E this isInitial s) (thread this)) =
     (\<not> (\<exists>c. lastComment s this = Some c \<and> isDraft c))"
  by (auto simp: update_def Let_def resolved_def lastComment_def split: option.splits)

lemma update_comments [simp]:
  "comments (store (update E this isInitial s) h) = comments (store s h)"
  by (simp add: update_def Let_def)

lemma lastComment_cong:
  "comments (store s' (thread this)) = comments (store s (thread this)) \<Longrightarrow>
     lastComment s' this = lastComment s this"
  by (simp add: lastComment_def)

lemma resolved_cong:
  "comments (store s' (thread this)) = comments (store s (thread this)) \<Longrightarrow>
     resolved s' this = resolved s this"
  using lastComment_cong[of s' this s] by (simp add: resolved_def)

lemma update_recomputes:
  "label (store (update E this isInitial s) (thread this)) =
     Some (if resolved (update E this isInitial s) this then ''Comment''
           else ''Comment (unresolved)'') \<and>
   canReply (store (update E this isInitial s) (thread this)) =
     (\<not> (\<exists>c. lastComment (update E this isInitial s) this = Some c \<and> isDraft c))"
proof -
  have c: "comments (store (update E this isInitial s) (thread this)) =
      comments (store s (thread this))" by simp
  show ?thesis
    unfolding resolved_cong[OF c] lastComment_cong[OF c]
    using update_label update_canReply by blast
qed

lemma recomputed_transfer:
  assumes "label (store s' (thread this)) = label (store s (thread this))"
    and "canReply (store s' (thread this)) = canReply (store s (thread this))"
    and c: "comments (store s' (thread this)) = comments (store s (thread this))"
    and "label (store s (thread this)) =
           Some (if resolved s this then ''Comment'' else ''Comment (unresolved)'') \<and>
         canReply (store s (thread this)) = (\<not> (\<exists>c. lastComment s this = Some c \<and> isDraft c))"
  shows "label (store s' (thread this)) =
           Some (if resolved s' this then ''Comment'' else ''Comment (unresolved)'') \<and>
         canReply (store s' (thread this)) = (\<not> (\<exists>c. lastComment s' this = Some c \<and> isDraft c))"
  unfolding resolved_cong[OF c] lastComment_cong[OF c] using assms by simp

lemma setComments_recomputes:
  "label (store (setComments E this cs b s) (thread this)) =
     Some (if resolved (setComments E this cs b s) this then ''Comment''
           else ''Comment (unresolved)'') \<and>
   canReply (store (setComments E this cs b s) (thread this)) =
     (\<not> (\<exists>c. lastComment (setComments E this cs b s) this = Some c \<and> isDraft c))"
proof -
  define s1 where "s1 = (case manager_of E s this of
                  None \<Rightarrow> s
                | Some m \<Rightarrow> s\<lparr>managers := registerComments E m this cs (managers s)\<rparr>)"
  define s2 where "s2 = modify_thread (thread this) (\<lambda>t. t\<lparr>comments := cs\<rparr>) s1"
  define s3 where "s3 = update E this b s2"
  have e: "setComments E this cs b s =
      (if comments (store s3 (thread this)) = [] then thread_dispose (thread this) s3 else s3)"
    unfolding setComments_def Let_def s1_def s2_def s3_def by (rule refl)
  have ok: "label (store s3 (thread this)) =
           Some (if resolved s3 this then ''Comment'' else ''Comment (unresolved)'') \<and>
         canReply (store s3 (thread this)) = (\<not> (\<exists>c. lastComment s3 this = Some c \<and> isDraft c))"
    unfolding s3_def by (rule update_recomputes)
  show ?thesis
  proof (cases "comments (store s3 (thread this)) = []")
    case True
    then have e': "setComments E this cs b s = thread_dispose (thread this) s3" using e by simp
    show ?thesis unfolding e'
      by (rule recomputed_transfer[OF _ _ _ ok]) (simp_all add: thread_dispose_def)
  next
    case False
    then show ?thesis using e ok by simp
  qed
qed

lemma pushComment_recomputes:
  "label (store (pushComment E this c st s) (thread this)) =
     Some (if resolved (pushComment E this c st s) this then ''Comment''
           else ''Comment (unresolved)'') \<and>
   canReply (store (pushComment E this c st s) (thread this)) =
     (\<not> (\<exists>c'. lastComment (pushComment E this c st s) this = Some c' \<and> isDraft c'))"
proof -
  define s1 where "s1 = (case manager_of E s this of
                  None \<Rightarrow> s
                | Some m \<Rightarrow> s\<lparr>managers := registerComments E m this [c] (managers s)\<rparr>)"
  define s2 where "s2 = modify_thread (thread this) (\<lambda>t. t\<lparr>comments := comments t @ [c]\<rparr>) s1"
  define s3 where "s3 = update E this (comments (store s1 (thread this)) = []) s2"
  have e: "pushComment E this c st s =
      (case st of Some Expanded \<Rightarrow>
           modify_thread (thread this) (\<lambda>t. t\<lparr>collapsibleState := Expanded\<rparr>) s3
         | _ \<Rightarrow> s3)"
    unfolding pushComment_def Let_def s1_def s2_def s3_def by (rule refl)
  have ok: "label (store s3 (thread this)) =
           Some (if resolved s3 this then ''Comment'' else ''Comment (unresolved)'') \<and>
         canReply (store s3 (thread this)) = (\<not> (\<exists>c. lastComment s3 this = Some c \<and> isDraft c))"
    unfolding s3_def by (rule update_recomputes)
  show ?thesis
  proof (cases "st = Some Expanded")
    case True
    then have e': "pushComment E this c st s =
        modify_thread (thread this) (\<lambda>t. t\<lparr>collapsibleState := Expanded\<rparr>) s3"
      using e by simp
    show ?thesis unfolding e' by (rule recomputed_transfer[OF _ _ _ ok]) simp_all
  next
    case False
    then have "pushComment E this c st s = s3"
      using e by (auto split: option.splits CommentThreadCollapsibleState.splits)
    then show ?thesis using ok by simp
  qed
qed

subsection \<open>Claim C9: label and reply permission after a change of the comment list\<close>

text \<open>
  C9. After any of the methods that change the comment list (\<^verbatim>\<open>setComments\<close>,
  \<^verbatim>\<open>pushComment\<close>, \<^verbatim>\<open>updateComment\<close>, \<^verbatim>\<open>removeComment\<close>, \<^verbatim>\<open>refreshComments\<close>), the
  handle's label is \<^verbatim>\<open>Comment\<close> when the thread is resolved and \<^verbatim>\<open>Comment (unresolved)\<close>
  when it is not, and replying is disabled exactly when there is a last comment and it is
  a draft.
\<close>

theorem comment_change_recomputes_label_and_reply:
  "label (store (apply_change E this ch s) (thread this)) =
     Some (if resolved (apply_change E this ch s) this then ''Comment''
           else ''Comment (unresolved)'') \<and>
   canReply (store (apply_change E this ch s) (thread this)) =
     (\<not> (\<exists>c. lastComment (apply_change E this ch s) this = Some c \<and> isDraft c))"
proof (cases ch)
  case (SetComments cs b)
  show ?thesis unfolding SetComments apply_change.simps by (rule setComments_recomputes)
next
  case (PushComment c st)
  show ?thesis unfolding PushComment apply_change.simps by (rule pushComment_recomputes)
next
  case (UpdateComment c updater)
  show ?thesis unfolding UpdateComment apply_change.simps updateComment_def
    by (rule setComments_recomputes)
next
  case (RemoveComment c)
  show ?thesis unfolding RemoveComment apply_change.simps removeComment_def
    by (rule setComments_recomputes)
next
  case RefreshComments
  show ?thesis unfolding RefreshComments apply_change.simps refreshComments_def
    by (rule setComments_recomputes)
qed

theorem comment_change_recomputes_label_and_reply_witness:
  "lastComment (apply_change example_env example_record (SetComments [unresolved_draft] True)
      example_state) example_record = Some unresolved_draft \<and>
   label (store (apply_change example_env example_record (SetComments [unresolved_draft] True)
      example_state) 0) = Some ''Comment (unresolved)'' \<and>
   canReply (store (apply_change example_env example_record (SetComments [unresolved_draft] True)
      example_state) 0) = False \<and>
   label (store (apply_change example_env example_record (PushComment resolved_comment None)
      example_state) 0) = Some ''Comment'' \<and>
   canReply (store (apply_change example_env example_record (PushComment resolved_comment None)
      example_state) 0) = True"
proof -
  let ?a = "apply_change example_env example_record (SetComments [unresolved_draft] True)
      example_state"
  let ?b = "apply_change example_env example_record (PushComment resolved_comment None)
      example_state"
  have ca: "comments (store ?a 0) = [unresolved_draft]"
    by (simp add: setComments_def Let_def thread_example_records thread_dispose_def
        split: option.splits)
  have cb: "comments (store ?b 0) = [resolved_comment]"
    by (simp add: pushComment_def Let_def thread_example_records example_state_def
        initial_state_def example_thread_def split: option.splits)
  have la: "lastComment ?a example_record = Some unresolved_draft"
    using ca by (simp add: lastComment_def thread_example_records)
  have lb: "lastComment ?b example_record = Some resolved_comment"
    using cb by (simp add: lastComment_def thread_example_records)
  have ra: "\<not> resolved ?a example_record"
    using la by (simp add: resolved_def unresolved_draft_def)
  have rb: "resolved ?b example_record"
    using lb by (simp add: resolved_def resolved_comment_def)
  have da: "isDraft unresolved_draft" and db: "\<not> isDraft resolved_comment"
    by (simp_all add: unresolved_draft_def resolved_comment_def)
  from comment_change_recomputes_label_and_reply [of example_env example_record
      "SetComments [unresolved_draft] True" example_state] la ra da
  have a: "label (store ?a 0) = Some ''Comment (unresolved)''" "canReply (store ?a 0) = False"
    by (simp_all add: thread_example_records)
  from comment_change_recomputes_label_and_reply [of example_env example_record
      "PushComment resolved_comment None" example_state] lb rb db
  have b: "label (store ?b 0) = Some ''Comment''" "canReply (store ?b 0) = True"
    by (simp_all add: thread_example_records)
  show ?thesis using la a b by blast
qed

subsection \<open>The collapse state\<close>

lemma overrideExpand_cong:
  assumes "comments (store s' (thread this)) = comments (store s (thread this))"
    and "uri (store s' (thread this)) = uri (store s (thread this))"
    and "managers s' = managers s"
  shows "overrideExpand E this s' = overrideExpand E this s"
  unfolding overrideExpand_def assms lastComment_cong[OF assms(1)] by (rule refl)

lemma update_before_collapse:
  fixes E :: "'m env" and s :: "'m state" and this :: GerritCommentThread
  defines "s1 \<equiv> updateContextValues this s"
  defines "s2 \<equiv> modify_thread (thread this) (\<lambda>t. t\<lparr>label := Some ''Comment''\<rparr>) s1"
  defines "s3 \<equiv> (if \<not> resolved s2 this
                then modify_thread (thread this) (\<lambda>t. t\<lparr>label := Some ''Comment (unresolved)''\<rparr>) s2
                else s2)"
  defines "s4 \<equiv> modify_thread (thread this)
                 (\<lambda>t. t\<lparr>canReply := (case lastComment s3 this of None \<Rightarrow> True | Some c \<Rightarrow> \<not> isDraft c)\<rparr>) s3"
  shows "update E this isInitial s =
           (if isInitial
            then modify_thread (thread this)
                (\<lambda>t. t\<lparr>collapsibleState :=
                          (if \<not> overrideExpand E this s4 \<and> resolved s4 this
                           then Collapsed else Expanded)\<rparr>) s4
            else s4)"
    and "comments (store s4 (thread this)) = comments (store s (thread this))"
    and "uri (store s4 (thread this)) = uri (store s (thread this))"
    and "collapsibleState (store s4 (thread this)) = collapsibleState (store s (thread this))"
    and "managers s4 = managers s"
proof -
  show "update E this isInitial s =
           (if isInitial
            then modify_thread (thread this)
                (\<lambda>t. t\<lparr>collapsibleState :=
                          (if \<not> overrideExpand E this s4 \<and> resolved s4 this
                           then Collapsed else Expanded)\<rparr>) s4
            else s4)"
    unfolding update_def Let_def s4_def s3_def s2_def s1_def by (rule refl)
  have f1: "comments (store s1 (thread this)) = comments (store s (thread this))"
    "uri (store s1 (thread this)) = uri (store s (thread this))"
    "collapsibleState (store s1 (thread this)) = collapsibleState (store s (thread this))"
    "managers s1 = managers s"
    by (simp_all add: s1_def updateContextValues_def setContextValue_def)
  have f2: "comments (store s2 (thread this)) = comments (store s (thread this))"
    "uri (store s2 (thread this)) = uri (store s (thread this))"
    "collapsibleState (store s2 (thread this)) = collapsibleState (store s (thread this))"
    "managers s2 = managers s"
    using f1 by (simp_all add: s2_def)
  have f3: "comments (store s3 (thread this)) = comments (store s (thread this))"
    "uri (store s3 (thread this)) = uri (store s (thread this))"
    "collapsibleState (store s3 (thread this)) = collapsibleState (store s (thread this))"
    "managers s3 = managers s"
    using f2 by (simp_all add: s3_def)
  show "comments (store s4 (thread this)) = comments (store s (thread this))"
    "uri (store s4 (thread this)) = uri (store s (thread this))"
    "collapsibleState (store s4 (thread this)) = collapsibleState (store s (thread this))"
    "managers s4 = managers s"
    using f3 by (simp_all add: s4_def)
qed

lemma update_sets_collapsibleState:
  "collapsibleState (store (update E this True s) (thread this)) =
     (if \<not> overrideExpand E this s \<and> resolved s this then Collapsed else Expanded)"
  unfolding update_before_collapse(1)
  using overrideExpand_cong[OF update_before_collapse(2,3,5), where E = E and s = s and this = this]
    resolved_cong[OF update_before_collapse(2), where s = s and this = this]
  by simp

lemma update_collapsibleState_later:
  "collapsibleState (store (update E this False s) (thread this)) =
     collapsibleState (store s (thread this))"
  unfolding update_before_collapse(1)
  using update_before_collapse(4)[where s = s and this = this] by simp

lemma overrideExpand_iff:
  "overrideExpand E this s \<longleftrightarrow>
     \<not> falsy (filePath this) \<and>
     (\<exists>c line. lastComment s this = Some c \<and> getCommentRange E c = Some line \<and>
        1 < (\<Sum>m\<leftarrow>getFileManagersForUri E (managers s) (uri (store s (thread this))).
               getLineThreadCount E (managers s) m line))"
  by (auto simp: overrideExpand_def foldl_add_sum_list Let_def split: option.splits)

subsection \<open>Claim C7: the collapse state on first materialization\<close>

text \<open>
  C7, as the code has it. An update with \<^verbatim>\<open>isInitial\<close> sets the collapse state to expanded
  when the record has a file path, the thread has a last comment with a range, and the
  managers of the thread's URI together count more than one thread on the line where that
  range starts; otherwise the state is collapsed exactly when the thread is resolved. An
  update without \<^verbatim>\<open>isInitial\<close> leaves the collapse state alone.
\<close>

theorem update_initial_collapsibleState:
  "collapsibleState (store (update E this True s) (thread this)) =
     (if \<not> falsy (filePath this) \<and>
         (\<exists>c line. lastComment s this = Some c \<and> getCommentRange E c = Some line \<and>
            1 < (\<Sum>m\<leftarrow>getFileManagersForUri E (managers s) (uri (store s (thread this))).
                   getLineThreadCount E (managers s) m line))
      then Expanded
      else if resolved s this then Collapsed else Expanded) \<and>
   collapsibleState (store (update E this False s) (thread this)) =
     collapsibleState (store s (thread this))"
  unfolding update_sets_collapsibleState update_collapsibleState_later overrideExpand_iff
  by auto

theorem update_initial_collapsibleState_witness:
  "resolved (example_state_with [resolved_comment]) example_record \<and>
   collapsibleState (store (update example_env example_record True
      (example_state_with [resolved_comment])) 0) = Expanded \<and>
   collapsibleState (store (update example_env example_record True
      (example_state_with [])) 0) = Collapsed"
proof -
  have r: "resolved (example_state_with [resolved_comment]) example_record"
    by (simp add: resolved_def lastComment_example_state_with resolved_comment_def)
  have r0: "resolved (example_state_with []) example_record"
    by (simp add: resolved_def lastComment_example_state_with)
  have p: "\<not> falsy (filePath example_record)"
    by (simp add: falsy_def example_record_def)
  have n: "(\<Sum>m\<leftarrow>getFileManagersForUri example_env (managers (example_state_with [resolved_comment]))
              (uri (store (example_state_with [resolved_comment]) (thread example_record))).
            getLineThreadCount example_env (managers (example_state_with [resolved_comment])) m 3) = 2"
    by (simp add: example_env_def)
  have g: "getCommentRange example_env resolved_comment = Some 3"
    by (simp add: example_env_def)
  have "collapsibleState (store (update example_env example_record True
      (example_state_with [resolved_comment])) 0) = Expanded"
    using update_initial_collapsibleState [of example_env example_record
        "example_state_with [resolved_comment]"] p n g r
    by (simp add: lastComment_example_state_with thread_example_records)
  moreover have "collapsibleState (store (update example_env example_record True
      (example_state_with [])) 0) = Collapsed"
    using update_initial_collapsibleState [of example_env example_record
        "example_state_with []"] r0
    by (simp add: lastComment_example_state_with thread_example_records)
  ultimately show ?thesis using r by blast
qed

text \<open>
  C7 as the spec words it fails for a record without a file path (the URI has no file meta):
  two threads are counted on line 3, where the thread's last comment has its range, the
  thread is resolved, and the first update collapses it.
\<close>

theorem update_initial_collapsibleState_counterexample:
  "fst (from_CommentThread example_env_without_meta 0 example_state) =
     Some example_record_without_path \<and>
   lastComment (example_state_with [resolved_comment]) example_record_without_path =
     Some resolved_comment \<and>
   resolved (example_state_with [resolved_comment]) example_record_without_path \<and>
   getCommentRange example_env_without_meta resolved_comment = Some 3 \<and>
   (\<Sum>m\<leftarrow>getFileManagersForUri example_env_without_meta
          (managers (example_state_with [resolved_comment]))
          (uri (store (example_state_with [resolved_comment]) 0)).
      getLineThreadCount example_env_without_meta
        (managers (example_state_with [resolved_comment])) m 3) = 2 \<and>
   collapsibleState (store (update example_env_without_meta example_record_without_path True
      (example_state_with [resolved_comment])) 0) = Collapsed"
proof -
  have f: "fst (from_CommentThread example_env_without_meta 0 example_state) =
     Some example_record_without_path"
    by (simp add: from_CommentThread_def new_GerritCommentThread_eq getThreadID_def
        example_state_def initial_state_def example_thread_def example_env_without_meta_def
        example_env_def example_record_without_path_def counter_value_zero js_String_0)
  have r: "resolved (example_state_with [resolved_comment]) example_record_without_path"
    by (simp add: resolved_def lastComment_example_state_with resolved_comment_def)
  have g: "getCommentRange example_env_without_meta resolved_comment = Some 3"
    by (simp add: example_env_without_meta_def example_env_def)
  have n: "(\<Sum>m\<leftarrow>getFileManagersForUri example_env_without_meta
          (managers (example_state_with [resolved_comment]))
          (uri (store (example_state_with [resolved_comment]) 0)).
      getLineThreadCount example_env_without_meta
        (managers (example_state_with [resolved_comment])) m 3) = 2"
    by (simp add: example_env_without_meta_def example_env_def)
  have o: "\<not> overrideExpand example_env_without_meta example_record_without_path
      (example_state_with [resolved_comment])"
    by (simp add: overrideExpand_def falsy_def example_record_without_path_def)
  have c: "collapsibleState (store (update example_env_without_meta example_record_without_path
      True (example_state_with [resolved_comment])) 0) = Collapsed"
    using update_sets_collapsibleState [of example_env_without_meta
        example_record_without_path "example_state_with [resolved_comment]"] o r
    by (simp add: thread_example_records)
  show ?thesis using f r g n c lastComment_example_state_with(2) by blast
qed

subsection \<open>Claim C2: emptying the comment list leaves the table entry\<close>

lemma setComments_empty:
  "threadMap (setComments E this [] b s) = threadMap s \<and>
   disposals (store (setComments E this [] b s) (thread this)) =
     Suc (disposals (store s (thread this)))"
proof -
  define s1 where "s1 = (case manager_of E s this of
                  None \<Rightarrow> s
                | Some m \<Rightarrow> s\<lparr>managers := registerComments E m this [] (managers s)\<rparr>)"
  define s2 where "s2 = modify_thread (thread this) (\<lambda>t. t\<lparr>comments := []\<rparr>) s1"
  define s3 where "s3 = update E this b s2"
  have c: "comments (store s3 (thread this)) = []" by (simp add: s3_def s2_def)
  have e: "setComments E this [] b s = thread_dispose (thread this) s3"
    using c unfolding setComments_def Let_def s1_def s2_def s3_def by simp
  have t1: "threadMap s1 = threadMap s" and d1: "disposals (store s1 (thread this)) = disposals (store s (thread this))"
    by (simp_all add: s1_def split: option.splits)
  have t3: "threadMap s3 = threadMap s1" and d3: "disposals (store s3 (thread this)) = disposals (store s1 (thread this))"
    by (simp_all add: s3_def s2_def update_def Let_def updateContextValues_def setContextValue_def)
  show ?thesis unfolding e using t1 d1 t3 d3 by (simp add: thread_dispose_def)
qed

text \<open>
  C2 does not hold of the code. \<^verbatim>\<open>setComments\<close> with an empty list disposes the handle,
  once, and leaves the table as it was, so the record stays in the table under its
  identifier; \<^verbatim>\<open>dispose\<close>, the other path that disposes the handle, removes the entry. On
  the thread that \<^verbatim>\<open>from\<close> creates first:
\<close>

theorem setComments_empty_keeps_table_entry:
  "fst (from_CommentThread example_env 0 example_state) = Some example_record \<and>
   threadMap (snd (from_CommentThread example_env 0 example_state)) ''0'' = Some example_record \<and>
   disposals (store (snd (from_CommentThread example_env 0 example_state)) 0) = 0 \<and>
   disposals (store (setComments example_env example_record [] False
      (snd (from_CommentThread example_env 0 example_state))) 0) = 1 \<and>
   threadMap (setComments example_env example_record [] False
      (snd (from_CommentThread example_env 0 example_state))) ''0'' = Some example_record \<and>
   threadMap (dispose example_record
      (snd (from_CommentThread example_env 0 example_state))) ''0'' = None"
proof -
  let ?s = "snd (from_CommentThread example_env 0 example_state)"
  have f: "from_CommentThread example_env 0 example_state =
      (Some example_record,
       example_state\<lparr>lastThreadId := js_increment zero_counter,
         store := (store example_state)(0 := example_thread\<lparr>contextValue := Some ''0|''\<rparr>),
         threadMap := [''0'' \<mapsto> example_record],
         managers := ()\<rparr>)"
    by (simp add: from_CommentThread_def new_GerritCommentThread_eq getThreadID_def
        example_state_def initial_state_def example_thread_def
        example_env_def example_record_def counter_value_zero js_String_0)
  have t: "threadMap ?s ''0'' = Some example_record"
    and d: "disposals (store ?s 0) = 0"
    unfolding f by (simp_all add: example_thread_def)
  have e: "threadMap (setComments example_env example_record [] False ?s) = threadMap ?s"
    "disposals (store (setComments example_env example_record [] False ?s) 0) =
       Suc (disposals (store ?s 0))"
    using setComments_empty [of example_env example_record False ?s]
    by (simp_all add: thread_example_records)
  have x: "threadMap (dispose example_record ?s) ''0'' = None"
    by (simp add: dispose_def thread_dispose_def example_record_def)
  show ?thesis using f t d e x by simp
qed

end
